theory Spec2Isabelle
  imports Main "HOL-Library.AList"
begin

section \<open>Python values and exceptions\<close>

text \<open>
  The development embeds \<^verbatim>\<open>problems/models/meta.py\<close>. Python strings are
  modelled as \<^typ>\<open>string\<close>; every character that the template syntax inspects
  (the delimiter, braces, ASCII letters, digits and the underscore) is ASCII, so a string
  may be read as its UTF-8 bytes without changing what the scanner does.

  Every exception the code (or the library code it calls) can raise is a value of
  \<open>error\<close>, and a call that may raise returns \<open>error + 'a\<close>.
\<close>

datatype error =
    KeyError string
  | ValueError
  | TypeError
  | NotImplementedError
  | GeneratedDataIncorrect
  | ValidationError string
  | DoesNotExist
  | FieldError
  | OtherError string

section \<open>The template class\<close>

text \<open>
  \<^verbatim>\<open>class _Template(string.Template): delimiter = "@"\<close>

  The class only overrides the delimiter, so its behaviour is the one of the standard
  library's \<^verbatim>\<open>string.Template\<close>, whose compiled pattern is
  \<^verbatim>\<open>@(?:(?P<escaped>@)|(?P<named>ID)|{(?P<braced>ID)}|(?P<invalid>))\<close>
  with \<^verbatim>\<open>ID = (?a:[_a-z][_a-z0-9]*)\<close> and the flag IGNORECASE.
\<close>

definition is_ascii_letter :: "char \<Rightarrow> bool" where
  "is_ascii_letter c =
     (let n = (of_char c :: nat) in (65 \<le> n \<and> n \<le> 90) \<or> (97 \<le> n \<and> n \<le> 122))"

definition is_ascii_digit :: "char \<Rightarrow> bool" where
  "is_ascii_digit c = (let n = (of_char c :: nat) in 48 \<le> n \<and> n \<le> 57)"

definition id_start :: "char \<Rightarrow> bool" where
  "id_start c = (c = CHR ''_'' \<or> is_ascii_letter c)"

definition id_char :: "char \<Rightarrow> bool" where
  "id_char c = (id_start c \<or> is_ascii_digit c)"

text \<open>
  \<open>idpattern s\<close> matches the identifier pattern at the start of \<open>s\<close>: the
  longest identifier and the text after it. The pattern is greedy and nothing that
  follows it in an alternative can succeed on a shorter identifier (a character of the
  identifier is never a closing brace), so the longest match is the only one.
\<close>

definition idpattern :: "string \<Rightarrow> (string \<times> string) option" where
  "idpattern s =
     (case s of
        [] \<Rightarrow> None
      | c # cs \<Rightarrow>
          if id_start c then Some (c # takeWhile id_char cs, dropWhile id_char cs)
          else None)"

text \<open>The group of the pattern that matched, as the match object reports it.\<close>

datatype match_group = Escaped | Named string | Braced string | Invalid

text \<open>
  \<open>pattern_match s\<close> matches the alternatives of the pattern, in their order, on the
  text \<open>s\<close> that follows a delimiter; it returns the group and the text after the
  match. The last alternative is empty, so a delimiter always starts a match.
\<close>

definition pattern_match :: "string \<Rightarrow> match_group \<times> string" where
  "pattern_match s =
     (case s of
        [] \<Rightarrow> (Invalid, [])
      | c # cs \<Rightarrow>
          if c = CHR ''@'' then (Escaped, cs)
          else
            (case idpattern s of
               Some (name, rest) \<Rightarrow> (Named name, rest)
             | None \<Rightarrow>
                 if c = CHR ''{'' then
                   (case idpattern cs of
                      Some (name, after) \<Rightarrow>
                        (case after of
                           [] \<Rightarrow> (Invalid, s)
                         | d # rest \<Rightarrow>
                             if d = CHR ''}'' then (Braced name, rest) else (Invalid, s))
                    | None \<Rightarrow> (Invalid, s))
                 else (Invalid, s)))"

lemma idpattern_length:
  "idpattern s = Some (name, rest) \<Longrightarrow> length rest < length s"
  using length_dropWhile_le [of id_char "tl s"]
  by (cases s) (auto simp: idpattern_def split: if_splits)

lemma pattern_match_length:
  "pattern_match s = (mo, rest) \<Longrightarrow> length rest \<le> length s"
  by (cases s)
     (auto simp: pattern_match_def split: if_splits option.splits list.splits
           dest!: idpattern_length)

text \<open>
  The non-overlapping matches of the pattern in a string, left to right, with the
  characters between them: what \<^verbatim>\<open>pattern.sub\<close> iterates over.
\<close>

datatype piece = Literal char | Match match_group

function finditer :: "string \<Rightarrow> piece list" where
  "finditer [] = []"
| "finditer (c # cs) =
     (if c = CHR ''@'' then
        (case pattern_match cs of (mo, rest) \<Rightarrow> Match mo # finditer rest)
      else Literal c # finditer cs)"
  by pat_completeness auto
termination
  by (relation "measure length") (auto dest: pattern_match_length [OF sym])

text \<open>
  \<^verbatim>\<open>substitute\<close>'s helper \<^verbatim>\<open>convert(mo)\<close>: a named or braced group is looked
  up in the mapping (a missing key raises \<^verbatim>\<open>KeyError\<close>) and converted with
  \<^verbatim>\<open>str\<close>, the escape gives the delimiter, and an invalid placeholder raises
  \<^verbatim>\<open>ValueError\<close>. The conversion \<^verbatim>\<open>str\<close> of the values a generator
  produces is a parameter.
\<close>

type_synonym 'v datum = "string \<rightharpoonup> 'v"

definition convert :: "('v \<Rightarrow> string) \<Rightarrow> 'v datum \<Rightarrow> match_group \<Rightarrow> error + string" where
  "convert str mapping mo =
     (case mo of
        Named n \<Rightarrow> (case mapping n of None \<Rightarrow> Inl (KeyError n) | Some v \<Rightarrow> Inr (str v))
      | Braced n \<Rightarrow> (case mapping n of None \<Rightarrow> Inl (KeyError n) | Some v \<Rightarrow> Inr (str v))
      | Escaped \<Rightarrow> Inr ''@''
      | Invalid \<Rightarrow> Inl ValueError)"

text \<open>
  \<^verbatim>\<open>pattern.sub(convert, template)\<close>: the replacement function is called on each
  match from left to right, so the first match that raises decides the exception.
\<close>

fun pattern_sub :: "(match_group \<Rightarrow> error + string) \<Rightarrow> piece list \<Rightarrow> error + string" where
  "pattern_sub repl [] = Inr []"
| "pattern_sub repl (Literal c # ps) =
     (case pattern_sub repl ps of Inl e \<Rightarrow> Inl e | Inr out \<Rightarrow> Inr (c # out))"
| "pattern_sub repl (Match mo # ps) =
     (case repl mo of
        Inl e \<Rightarrow> Inl e
      | Inr s \<Rightarrow> (case pattern_sub repl ps of Inl e \<Rightarrow> Inl e | Inr out \<Rightarrow> Inr (s @ out)))"

text \<open>
  \<^verbatim>\<open>_Template(template).substitute(**kws)\<close>. The template attribute of a model
  instance may be \<^verbatim>\<open>None\<close> (see \<open>default_text\<close> below); the regular
  expression engine then raises \<^verbatim>\<open>TypeError\<close>.
\<close>

definition substitute :: "('v \<Rightarrow> string) \<Rightarrow> string option \<Rightarrow> 'v datum \<Rightarrow> error + string" where
  "substitute str template kws =
     (case template of
        None \<Rightarrow> Inl TypeError
      | Some t \<Rightarrow> pattern_sub (convert str kws) (finditer t))"

section \<open>Content types and problem texts\<close>

text \<open>
  A model class is \<^verbatim>\<open>Problem\<close> itself or one of its subclasses (a problem kind,
  implemented in other files). Django keeps one \<^verbatim>\<open>ContentType\<close> row per model
  class: \<^verbatim>\<open>ContentType.objects.get_for_model\<close> and \<^verbatim>\<open>model_class()\<close> are
  inverse to each other.
\<close>

datatype py_class = Problem | Subclass string

datatype content_type = ContentType py_class

definition get_for_model :: "py_class \<Rightarrow> content_type" where
  "get_for_model c = ContentType c"

fun model_class :: "content_type \<Rightarrow> py_class" where
  "model_class (ContentType c) = c"

record problem_text =
  text_id :: "int option"
  text_content_type :: content_type
  instruction :: "string option"
  solution :: "string option"

record rendered_text =
  rendered_instruction :: string
  rendered_solution :: string

text \<open>The body of the loop of \<^verbatim>\<open>ProblemText.render\<close>, for one datum.\<close>

definition render_datum ::
  "('v \<Rightarrow> string) \<Rightarrow> problem_text \<Rightarrow> 'v datum \<Rightarrow> error + rendered_text" where
  "render_datum str self datum =
     (case substitute str (instruction self) datum of
        Inl e \<Rightarrow> Inl e
      | Inr i \<Rightarrow>
          (case substitute str (solution self) datum of
             Inl e \<Rightarrow> Inl e
           | Inr s \<Rightarrow> Inr \<lparr>rendered_instruction = i, rendered_solution = s\<rparr>))"

text \<open>
  \<^verbatim>\<open>ProblemText.render(self, data)\<close>: the loop over the list of data, appending to
  \<^verbatim>\<open>rendered_texts\<close>.
\<close>

fun render_loop ::
  "('v \<Rightarrow> string) \<Rightarrow> problem_text \<Rightarrow> 'v datum list \<Rightarrow> rendered_text list
     \<Rightarrow> error + rendered_text list" where
  "render_loop str self [] rendered_texts = Inr rendered_texts"
| "render_loop str self (datum # data) rendered_texts =
     (case render_datum str self datum of
        Inl e \<Rightarrow> Inl e
      | Inr t \<Rightarrow> render_loop str self data (rendered_texts @ [t]))"

definition render ::
  "('v \<Rightarrow> string) \<Rightarrow> problem_text \<Rightarrow> 'v datum list \<Rightarrow> error + rendered_text list" where
  "render str self data = render_loop str self data []"

section \<open>Templates as the specification describes them\<close>

text \<open>
  The identifiers of the placeholders of a template and its validity, as
  \<^verbatim>\<open>Template.get_identifiers\<close> and \<^verbatim>\<open>Template.is_valid\<close> compute them from
  the same matches.
\<close>

fun identifiers :: "piece list \<Rightarrow> string list" where
  "identifiers [] = []"
| "identifiers (Match (Named n) # ps) = n # identifiers ps"
| "identifiers (Match (Braced n) # ps) = n # identifiers ps"
| "identifiers (p # ps) = identifiers ps"

definition get_identifiers :: "string \<Rightarrow> string list" where
  "get_identifiers t = identifiers (finditer t)"

definition is_valid :: "string \<Rightarrow> bool" where
  "is_valid t = (Match Invalid \<notin> set (finditer t))"

text \<open>
  The specification's view of a template: text without delimiter, placeholders
  \<^verbatim>\<open>@identifier\<close>, braced placeholders (the identifier between braces after the
  delimiter), and the escape \<^verbatim>\<open>@@\<close>.
  \<open>written\<close> is the template string of a list of segments, \<open>filled\<close> the text the
  specification expects for it.
\<close>

datatype segment = Text string | Placeholder string | BracedPlaceholder string | Escape

fun written :: "segment list \<Rightarrow> string" where
  "written [] = []"
| "written (Text s # segs) = s @ written segs"
| "written (Placeholder n # segs) = CHR ''@'' # n @ written segs"
| "written (BracedPlaceholder n # segs) = CHR ''@'' # CHR ''{'' # n @ CHR ''}'' # written segs"
| "written (Escape # segs) = CHR ''@'' # CHR ''@'' # written segs"

fun filled :: "(string \<Rightarrow> string) \<Rightarrow> segment list \<Rightarrow> string" where
  "filled val [] = []"
| "filled val (Text s # segs) = s @ filled val segs"
| "filled val (Placeholder n # segs) = val n @ filled val segs"
| "filled val (BracedPlaceholder n # segs) = val n @ filled val segs"
| "filled val (Escape # segs) = CHR ''@'' # filled val segs"

fun placeholder_names :: "segment list \<Rightarrow> string list" where
  "placeholder_names [] = []"
| "placeholder_names (Placeholder n # segs) = n # placeholder_names segs"
| "placeholder_names (BracedPlaceholder n # segs) = n # placeholder_names segs"
| "placeholder_names (seg # segs) = placeholder_names segs"

definition is_identifier :: "string \<Rightarrow> bool" where
  "is_identifier n = (case n of [] \<Rightarrow> False | c # cs \<Rightarrow> id_start c \<and> list_all id_char cs)"

text \<open>
  A list of segments is well segmented when its text segments hold no delimiter, its
  placeholders are identifiers, and an unbraced placeholder is not directly followed by
  a character that would continue the identifier.
\<close>

fun well_segmented :: "segment list \<Rightarrow> bool" where
  "well_segmented [] = True"
| "well_segmented (Text s # segs) = (CHR ''@'' \<notin> set s \<and> well_segmented segs)"
| "well_segmented (Placeholder n # segs) =
     (is_identifier n \<and> list_all (\<lambda>c. \<not> id_char c) (take 1 (written segs)) \<and> well_segmented segs)"
| "well_segmented (BracedPlaceholder n # segs) = (is_identifier n \<and> well_segmented segs)"
| "well_segmented (Escape # segs) = well_segmented segs"

text \<open>
  The segments of a list of matches: a character between matches is a text of its own,
  and a delimiter that starts no placeholder stays in the text.
\<close>

fun segments :: "piece list \<Rightarrow> segment list" where
  "segments [] = []"
| "segments (Literal c # ps) = Text [c] # segments ps"
| "segments (Match Escaped # ps) = Escape # segments ps"
| "segments (Match (Named n) # ps) = Placeholder n # segments ps"
| "segments (Match (Braced n) # ps) = BracedPlaceholder n # segments ps"
| "segments (Match Invalid # ps) = Text ''@'' # segments ps"

text \<open>
  \<open>lone_delimiter post\<close>: a delimiter followed by the text \<open>post\<close> starts neither
  an escape, nor a placeholder, nor a braced placeholder. That is, \<open>post\<close> is empty,
  or its first character is no delimiter and cannot start an identifier, and if it is
  an opening brace, no identifier and closing brace follow it.
\<close>

definition lone_delimiter :: "string \<Rightarrow> bool" where
  "lone_delimiter post =
     (case post of
        [] \<Rightarrow> True
      | c # cs \<Rightarrow>
          c \<noteq> CHR ''@'' \<and> \<not> id_start c \<and>
          (c = CHR ''{'' \<longrightarrow> \<not> (\<exists>n rest. is_identifier n \<and> cs = n @ CHR ''}'' # rest)))"

section \<open>Problems\<close>

text \<open>
  An instance of \<^verbatim>\<open>Problem\<close> or of one of its subclasses. \<open>cls\<close> is the class of
  the instance (\<^verbatim>\<open>type(self)\<close>), \<open>id'\<close> its primary key (\<^verbatim>\<open>None\<close> before
  the first save; \<^verbatim>\<open>pk\<close> and \<^verbatim>\<open>id\<close> always hold the same value), \<open>document\<close>
  the key of the document, \<open>text'\<close> the optional text, and \<open>params\<close> the fields that
  the subclass adds in its child table (not read for an instance of \<^verbatim>\<open>Problem\<close>
  itself).
\<close>

record 'a problem =
  id' :: "int option"
  cls :: py_class
  document :: int
  content_type :: content_type
  text' :: "problem_text option"
  number_of_subproblems :: nat
  params :: 'a

record student =
  student_id :: "int option"

text \<open>
  What \<^verbatim>\<open>meta.py\<close> uses and does not define: the seeding of the module
  \<^verbatim>\<open>random\<close> with a string (the new state of the generator is a function of the
  string), \<^verbatim>\<open>str\<close> on the values of the data, and for each subclass of
  \<^verbatim>\<open>Problem\<close> its class attributes and its method \<^verbatim>\<open>generate\<close>. A generator
  reads and advances the state \<open>'r\<close> of the random module and either returns a datum or
  raises.
\<close>

record ('r, 'v, 'a) environment =
  random_seed :: "string \<Rightarrow> 'r"
  value_str :: "'v \<Rightarrow> string"
  subclass_default_instruction :: "string \<Rightarrow> string option"
  subclass_default_solution :: "string \<Rightarrow> string option"
  subclass_generate :: "string \<Rightarrow> 'a problem \<Rightarrow> 'r \<Rightarrow> (error + 'v datum) \<times> 'r"

text \<open>
  The class attributes \<^verbatim>\<open>default_instruction\<close> and \<^verbatim>\<open>default_solution\<close> are
  \<^verbatim>\<open>None\<close> in \<^verbatim>\<open>Problem\<close>; a subclass may override them.
\<close>

definition default_instruction :: "('r, 'v, 'a) environment \<Rightarrow> py_class \<Rightarrow> string option" where
  "default_instruction E c =
     (case c of Problem \<Rightarrow> None | Subclass k \<Rightarrow> subclass_default_instruction E k)"

definition default_solution :: "('r, 'v, 'a) environment \<Rightarrow> py_class \<Rightarrow> string option" where
  "default_solution E c =
     (case c of Problem \<Rightarrow> None | Subclass k \<Rightarrow> subclass_default_solution E k)"

text \<open>
  \<^verbatim>\<open>Problem.clean\<close>. The result is the exception raised, if any, and the instance
  as the call leaves it. \<^verbatim>\<open>issubclass(Problem, type(self))\<close> holds exactly for an
  instance of \<^verbatim>\<open>Problem\<close> itself. The method does not access the database.
\<close>

definition clean :: "'a problem \<Rightarrow> error option \<times> 'a problem" where
  "clean self =
     (if cls self = Problem then
        (Some (ValidationError ''Problems must have a non-trivial generator''), self)
      else
        let self = self\<lparr>content_type := get_for_model (cls self)\<rparr> in
        (case text' self of
           None \<Rightarrow> (None, self)
         | Some t \<Rightarrow>
             if content_type self \<noteq> text_content_type t then
               (Some (ValidationError ''Generators of the problem and its text must match''), self)
             else (None, self)))"

subsection \<open>The database\<close>

text \<open>
  Multi-table inheritance: the common fields of every problem are a row of the parent
  table, under its key; an instance of a subclass has one more row, in the child table
  of its class, under the same key (\<^verbatim>\<open>problem_ptr_id\<close>). The key of a new row of
  the parent table is chosen by the database, not by the code: it is the next value of
  the sequence of the table, \<open>problem_id_seq\<close>, which the database then advances.
  The sequence never goes back, so the key of a deleted row is not given again.
\<close>

record problem_row =
  row_document :: int
  row_content_type :: content_type
  row_text :: "problem_text option"
  row_number_of_subproblems :: nat

record 'a database =
  problem_table :: "(int \<times> problem_row) list"
  child_tables :: "((string \<times> int) \<times> 'a) list"
  problem_id_seq :: int

text \<open>
  \<^verbatim>\<open>models.Model.save\<close>: an instance without key is inserted under the key the
  database chooses, an instance with a key replaces (or creates) the rows under its
  key; the instance holds its key afterwards.
\<close>

definition model_save :: "'a problem \<Rightarrow> 'a database \<Rightarrow> 'a problem \<times> 'a database" where
  "model_save self db =
     (let (i, db) =
            (case id' self of
               None \<Rightarrow> (problem_id_seq db, db\<lparr>problem_id_seq := problem_id_seq db + 1\<rparr>)
             | Some i \<Rightarrow> (i, db));
          row = \<lparr>row_document = document self, row_content_type = content_type self,
                 row_text = text' self,
                 row_number_of_subproblems = number_of_subproblems self\<rparr>;
          db = db\<lparr>problem_table := AList.update i row (problem_table db)\<rparr>;
          db = (case cls self of
                  Problem \<Rightarrow> db
                | Subclass k \<Rightarrow>
                    db\<lparr>child_tables := AList.update (k, i) (params self) (child_tables db)\<rparr>)
      in (self\<lparr>id' := Some i\<rparr>, db))"

text \<open>\<^verbatim>\<open>Problem.save\<close>: the content type is set from the class, then the model is saved.\<close>

definition save :: "'a problem \<Rightarrow> 'a database \<Rightarrow> 'a problem \<times> 'a database" where
  "save self db = model_save (self\<lparr>content_type := get_for_model (cls self)\<rparr>) db"

text \<open>
  \<^verbatim>\<open>content_type.get_object_for_this_type(problem_ptr_id=...)\<close>: the instance of the
  content type's class whose child row has the key; \<^verbatim>\<open>DoesNotExist\<close> without such a
  row. The class \<^verbatim>\<open>Problem\<close> itself has no field \<^verbatim>\<open>problem_ptr_id\<close>, and the
  query raises \<^verbatim>\<open>FieldError\<close>.
\<close>

definition get_object_for_this_type ::
  "content_type \<Rightarrow> int option \<Rightarrow> 'a database \<Rightarrow> error + 'a problem" where
  "get_object_for_this_type ct problem_ptr_id db =
     (case model_class ct of
        Problem \<Rightarrow> Inl FieldError
      | Subclass k \<Rightarrow>
          (case problem_ptr_id of
             None \<Rightarrow> Inl DoesNotExist
           | Some i \<Rightarrow>
               (case map_of (child_tables db) (k, i) of
                  None \<Rightarrow> Inl DoesNotExist
                | Some ps \<Rightarrow>
                    (case map_of (problem_table db) i of
                       None \<Rightarrow> Inl DoesNotExist
                     | Some row \<Rightarrow>
                         Inr \<lparr>id' = Some i, cls = Subclass k, document = row_document row,
                              content_type = row_content_type row, text' = row_text row,
                              number_of_subproblems = row_number_of_subproblems row,
                              params = ps\<rparr>))))"

text \<open>
  \<^verbatim>\<open>Problem.downcast\<close> returns \<^verbatim>\<open>self\<close>, the very object it was called on, or
  an instance newly read from the database. The two are kept apart, since
  \<^verbatim>\<open>copy\<close> assigns to the attributes of what it gets.
\<close>

datatype 'a downcast_result = Self | Fetched "'a problem"

definition downcast :: "'a problem \<Rightarrow> 'a database \<Rightarrow> error + 'a downcast_result" where
  "downcast self db =
     (if model_class (content_type self) = cls self then Inr Self
      else
        (case get_object_for_this_type (content_type self) (id' self) db of
           Inl e \<Rightarrow> Inl e
         | Inr obj \<Rightarrow> Inr (Fetched obj)))"

text \<open>
  \<^verbatim>\<open>Problem.copy\<close>. The result is the value returned (or the exception), the object
  the method was called on as the call leaves it, and the database. When
  \<^verbatim>\<open>downcast\<close> returns \<^verbatim>\<open>self\<close>, the assignments change the caller's object, which
  is also the object returned.
\<close>

definition copy ::
  "'a problem \<Rightarrow> int \<Rightarrow> 'a database \<Rightarrow> (error + 'a problem) \<times> 'a problem \<times> 'a database" where
  "copy self doc db =
     (case downcast self db of
        Inl e \<Rightarrow> (Inl e, self, db)
      | Inr Self \<Rightarrow>
          (case save (self\<lparr>document := doc, id' := None\<rparr>) db of
             (self, db) \<Rightarrow> (Inr self, self, db))
      | Inr (Fetched obj) \<Rightarrow>
          (case save (obj\<lparr>document := doc, id' := None\<rparr>) db of
             (obj, db) \<Rightarrow> (Inr obj, self, db)))"

subsection \<open>Generating data\<close>

text \<open>
  \<^verbatim>\<open>Problem.generate\<close> raises \<^verbatim>\<open>NotImplementedError\<close>; every subclass overrides
  it. \<^verbatim>\<open>Problem.validate\<close> is the helper a generator uses to reject its draw.
\<close>

definition generate ::
  "('r, 'v, 'a) environment \<Rightarrow> 'a problem \<Rightarrow> 'r \<Rightarrow> (error + 'v datum) \<times> 'r" where
  "generate E self r =
     (case cls self of
        Problem \<Rightarrow> (Inl NotImplementedError, r)
      | Subclass k \<Rightarrow> subclass_generate E k self r)"

definition validate :: "bool \<Rightarrow> error + unit" where
  "validate condition = (if \<not> condition then Inl GeneratedDataIncorrect else Inr ())"

text \<open>Python's \<^verbatim>\<open>str\<close> on an integer, and on a key that may be \<^verbatim>\<open>None\<close>.\<close>

fun str_nat :: "nat \<Rightarrow> string" where
  "str_nat n =
     (if n < 10 then [''0123456789'' ! n]
      else str_nat (n div 10) @ [''0123456789'' ! (n mod 10)])"

declare str_nat.simps [simp del]

definition str_int :: "int \<Rightarrow> string" where
  "str_int i = (if i < 0 then CHR ''-'' # str_nat (nat (- i)) else str_nat (nat i))"

definition str_id :: "int option \<Rightarrow> string" where
  "str_id x = (case x of None \<Rightarrow> ''None'' | Some i \<Rightarrow> str_int i)"

text \<open>
  The seed of subproblem \<open>i\<close>, \<^verbatim>\<open>f"{i}-{seed}"\<close>, where \<^verbatim>\<open>seed\<close> is a string or
  \<^verbatim>\<open>None\<close> (which the format prints as \<^verbatim>\<open>None\<close>).
\<close>

definition subproblem_seed :: "nat \<Rightarrow> string option \<Rightarrow> string" where
  "subproblem_seed i seed =
     str_nat i @ ''-'' @ (case seed of None \<Rightarrow> ''None'' | Some s \<Rightarrow> s)"

text \<open>
  The inner loop of \<^verbatim>\<open>_generate_data\<close>: \<^verbatim>\<open>while True\<close>, call the generator and
  leave the loop with its datum; \<^verbatim>\<open>GeneratedDataIncorrect\<close> is caught and the loop
  goes on, any other exception leaves the method. The loop need not end: the value
  \<open>None\<close> stands for a call that never returns.
\<close>

partial_function (option) generate_until_valid ::
  "('r \<Rightarrow> (error + 'd) \<times> 'r) \<Rightarrow> 'r \<Rightarrow> ((error + 'd) \<times> 'r) option" where
  "generate_until_valid gen r =
     (case gen r of
        (Inr datum, r') \<Rightarrow> Some (Inr datum, r')
      | (Inl e, r') \<Rightarrow>
          if e = GeneratedDataIncorrect then generate_until_valid gen r'
          else Some (Inl e, r'))"

text \<open>
  The outer loop, over \<^verbatim>\<open>range(self.number_of_subproblems)\<close>, with the list
  \<^verbatim>\<open>data\<close> and the state of the random module.
\<close>

fun generate_data_loop ::
  "('r, 'v, 'a) environment \<Rightarrow> 'a problem \<Rightarrow> string option \<Rightarrow> nat list \<Rightarrow> 'v datum list \<Rightarrow> 'r
     \<Rightarrow> ((error + 'v datum list) \<times> 'r) option" where
  "generate_data_loop E self seed [] data r = Some (Inr data, r)"
| "generate_data_loop E self seed (i # is) data r =
     (case generate_until_valid (generate E self) (random_seed E (subproblem_seed i seed)) of
        None \<Rightarrow> None
      | Some (Inl e, r') \<Rightarrow> Some (Inl e, r')
      | Some (Inr datum, r') \<Rightarrow> generate_data_loop E self seed is (data @ [datum]) r')"

definition generate_data ::
  "('r, 'v, 'a) environment \<Rightarrow> 'a problem \<Rightarrow> string option \<Rightarrow> 'r
     \<Rightarrow> ((error + 'v datum list) \<times> 'r) option" where
  "generate_data E self seed r =
     generate_data_loop E self seed [0..<number_of_subproblems self] [] r"

subsection \<open>Rendering the text of a problem\<close>

definition default_text :: "('r, 'v, 'a) environment \<Rightarrow> py_class \<Rightarrow> problem_text" where
  "default_text E c =
     \<lparr>text_id = None, text_content_type = get_for_model c,
      instruction = default_instruction E c, solution = default_solution E c\<rparr>"

definition render_text ::
  "('r, 'v, 'a) environment \<Rightarrow> 'a problem \<Rightarrow> 'v datum list \<Rightarrow> error + rendered_text list" where
  "render_text E self data =
     (case text' self of
        None \<Rightarrow> render (value_str E) (default_text E (cls self)) data
      | Some t \<Rightarrow> render (value_str E) t data)"

definition example_data ::
  "('r, 'v, 'a) environment \<Rightarrow> 'a problem \<Rightarrow> 'r \<Rightarrow> ((error + 'v datum list) \<times> 'r) option" where
  "example_data E self r = generate_data E self None r"

definition example_text ::
  "('r, 'v, 'a) environment \<Rightarrow> 'a problem \<Rightarrow> 'r
     \<Rightarrow> ((error + rendered_text list) \<times> 'r) option" where
  "example_text E self r =
     (case example_data E self r of
        None \<Rightarrow> None
      | Some (Inl e, r') \<Rightarrow> Some (Inl e, r')
      | Some (Inr data, r') \<Rightarrow> Some (render_text E self data, r'))"

definition student_text ::
  "('r, 'v, 'a) environment \<Rightarrow> 'a problem \<Rightarrow> student \<Rightarrow> 'r
     \<Rightarrow> ((error + rendered_text list) \<times> 'r) option" where
  "student_text E self student r =
     (let seed = str_id (id' self) @ ''-'' @ str_id (student_id student) in
      case generate_data E self (Some seed) r of
        None \<Rightarrow> None
      | Some (Inl e, r') \<Rightarrow> Some (Inl e, r')
      | Some (Inr data, r') \<Rightarrow> Some (render_text E self data, r'))"

section \<open>Notions of the specification\<close>

text \<open>
  \<open>after_rejections gen k r\<close> is the state of the random source after the generator,
  started in state \<open>r\<close>, has rejected its first \<open>k\<close> draws, each draw starting in the
  state the one before left; it is \<open>None\<close> when one of these draws is not a
  rejection.
\<close>

fun after_rejections :: "('r \<Rightarrow> (error + 'd) \<times> 'r) \<Rightarrow> nat \<Rightarrow> 'r \<Rightarrow> 'r option" where
  "after_rejections gen 0 r = Some r"
| "after_rejections gen (Suc k) r =
     (case gen r of
        (Inl e, r') \<Rightarrow> if e = GeneratedDataIncorrect then after_rejections gen k r' else None
      | (Inr datum, r') \<Rightarrow> None)"

text \<open>
  \<open>accepts_after gen k r\<close>: the generator rejects its first \<open>k\<close> draws from state
  \<open>r\<close> and accepts the next one; the result is the datum and the state it leaves.
\<close>

definition accepts_after :: "('r \<Rightarrow> (error + 'd) \<times> 'r) \<Rightarrow> nat \<Rightarrow> 'r \<Rightarrow> ('d \<times> 'r) option" where
  "accepts_after gen k r =
     (case after_rejections gen k r of
        None \<Rightarrow> None
      | Some rk \<Rightarrow> (case gen rk of (Inr datum, r') \<Rightarrow> Some (datum, r') | (Inl e, r') \<Rightarrow> None))"

text \<open>The text a problem renders with: its own, or the default text of its class.\<close>

definition text_used :: "('r, 'v, 'a) environment \<Rightarrow> 'a problem \<Rightarrow> problem_text" where
  "text_used E self = (case text' self of None \<Rightarrow> default_text E (cls self) | Some t \<Rightarrow> t)"

text \<open>
  \<open>stored_problem db self\<close>: the instance \<open>self\<close> is a problem of the database as
  it is stored. It has a key, its common fields are those of the row of the parent table
  under the key, the content type of the row is the one of a subclass, the child table
  of that subclass has a row under the key, and the instance is either of the class
  \<^verbatim>\<open>Problem\<close> (read from the parent table) or of the subclass, with the fields of
  the child row.
\<close>

definition stored_problem :: "'a database \<Rightarrow> 'a problem \<Rightarrow> bool" where
  "stored_problem db self =
     (case id' self of
        None \<Rightarrow> False
      | Some i \<Rightarrow>
          (case map_of (problem_table db) i of
             None \<Rightarrow> False
           | Some row \<Rightarrow>
               document self = row_document row \<and>
               content_type self = row_content_type row \<and>
               text' self = row_text row \<and>
               number_of_subproblems self = row_number_of_subproblems row \<and>
               (case model_class (row_content_type row) of
                  Problem \<Rightarrow> False
                | Subclass k \<Rightarrow>
                    (case map_of (child_tables db) (k, i) of
                       None \<Rightarrow> False
                     | Some ps \<Rightarrow>
                         cls self = Problem \<or> (cls self = Subclass k \<and> params self = ps)))))"

text \<open>
  What the database guarantees of its sequence: it is above every key of the table.
\<close>

definition keys_below_sequence :: "'a database \<Rightarrow> bool" where
  "keys_below_sequence db = list_all (\<lambda>(i, row). i < problem_id_seq db) (problem_table db)"

section \<open>An example environment\<close>

text \<open>
  A random source whose state is the log of what was done to it: seeding starts a new
  log with the seed, a draw appends an entry. The generator of the example kind rejects
  a draw while the log has fewer than three entries, that is the first two draws after
  a seeding, and accepts the third with the seed as its datum.
\<close>

definition logging_environment :: "(string list, string, unit) environment" where
  "logging_environment =
     \<lparr>random_seed = (\<lambda>s. [s]),
      value_str = (\<lambda>v. v),
      subclass_default_instruction = (\<lambda>k. Some ''Seed @x''),
      subclass_default_solution = (\<lambda>k. Some ''@x''),
      subclass_generate = (\<lambda>k self r.
         (if length r < 3 then Inl GeneratedDataIncorrect else Inr [''x'' \<mapsto> hd r],
          r @ [''draw'']))\<rparr>"

definition logged_problem :: "unit problem" where
  "logged_problem =
     \<lparr>id' = Some 5, cls = Subclass ''kind'', document = 1,
      content_type = ContentType (Subclass ''kind''), text' = None,
      number_of_subproblems = 2, params = ()\<rparr>"

text \<open>
  A kind without default texts, whose generator draws the state of the random source.
\<close>

definition bare_environment :: "(nat, string, unit) environment" where
  "bare_environment =
     \<lparr>random_seed = length,
      value_str = (\<lambda>v. v),
      subclass_default_instruction = (\<lambda>k. None),
      subclass_default_solution = (\<lambda>k. None),
      subclass_generate = (\<lambda>k self r. (Inr [''x'' \<mapsto> str_nat r], Suc r))\<rparr>"

definition bare_problem :: "nat \<Rightarrow> unit problem" where
  "bare_problem n =
     \<lparr>id' = Some 1, cls = Subclass ''kind'', document = 1,
      content_type = ContentType (Subclass ''kind''), text' = None,
      number_of_subproblems = n, params = ()\<rparr>"

text \<open>A text of the kind \<open>k\<close>.\<close>

definition kind_text :: "string \<Rightarrow> problem_text" where
  "kind_text k =
     \<lparr>text_id = Some 7, text_content_type = ContentType (Subclass k),
      instruction = Some ''Own @x'', solution = Some ''@x!''\<rparr>"

text \<open>
  A database with one problem of the kind \<^verbatim>\<open>kind\<close>, under the key 1 in document 10,
  whose sequence is at 3 (a problem under the key 2 was stored and deleted), and the
  instance read from it, as an instance of the class \<open>c\<close>.
\<close>

definition example_database :: "unit database" where
  "example_database =
     \<lparr>problem_table =
        [(1, \<lparr>row_document = 10, row_content_type = ContentType (Subclass ''kind''),
              row_text = Some (kind_text ''kind''), row_number_of_subproblems = 2\<rparr>)],
      child_tables = [((''kind'', 1), ())],
      problem_id_seq = 3\<rparr>"

definition stored_instance :: "py_class \<Rightarrow> unit problem" where
  "stored_instance c =
     \<lparr>id' = Some 1, cls = c, document = 10, content_type = ContentType (Subclass ''kind''),
      text' = Some (kind_text ''kind''), number_of_subproblems = 2, params = ()\<rparr>"

section \<open>Properties of the template renderer\<close>

lemmas char_class_defs = id_start_def id_char_def is_ascii_letter_def is_ascii_digit_def

lemma finditer_literals:
  "CHR ''@'' \<notin> set pre \<Longrightarrow> finditer (pre @ s) = map Literal pre @ finditer s"
  by (induction pre) auto

lemma pattern_sub_literals:
  "pattern_sub repl (map Literal pre @ ps) =
     (case pattern_sub repl ps of Inl e \<Rightarrow> Inl e | Inr out \<Rightarrow> Inr (pre @ out))"
  by (induction pre) (auto split: sum.splits)

lemma finditer_escape: "finditer (CHR ''@'' # CHR ''@'' # s) = Match Escaped # finditer s"
  by (simp add: pattern_match_def)

lemma idpattern_identifier:
  assumes "is_identifier n" and "list_all (\<lambda>c. \<not> id_char c) (take 1 rest)"
  shows "idpattern (n @ rest) = Some (n, rest)"
proof -
  from assms(1) obtain c cs where n: "n = c # cs" and c: "id_start c" and cs: "\<forall>x\<in>set cs. id_char x"
    by (cases n) (auto simp: is_identifier_def list_all_iff)
  from assms(2) have "takeWhile id_char rest = []" "dropWhile id_char rest = rest"
    by (cases rest; simp)+
  with cs have "takeWhile id_char (cs @ rest) = cs" "dropWhile id_char (cs @ rest) = rest"
    by (simp_all add: takeWhile_append2 dropWhile_append2)
  with n c show ?thesis by (simp add: idpattern_def)
qed

lemma finditer_named:
  assumes "is_identifier n" and "list_all (\<lambda>c. \<not> id_char c) (take 1 rest)"
  shows "finditer (CHR ''@'' # n @ rest) = Match (Named n) # finditer rest"
proof -
  from assms(1) have "n \<noteq> []" "hd n \<noteq> CHR ''@''"
    by (cases n; auto simp: is_identifier_def char_class_defs)+
  then have "pattern_match (n @ rest) = (Named n, rest)"
    using idpattern_identifier [OF assms]
    by (cases n) (simp_all add: pattern_match_def)
  then show ?thesis by simp
qed

lemma finditer_braced:
  assumes "is_identifier n"
  shows "finditer (CHR ''@'' # CHR ''{'' # n @ CHR ''}'' # rest) = Match (Braced n) # finditer rest"
proof -
  have "list_all (\<lambda>c. \<not> id_char c) (take 1 (CHR ''}'' # rest))"
    by (simp add: char_class_defs)
  from idpattern_identifier [OF assms this]
  have "pattern_match (CHR ''{'' # n @ CHR ''}'' # rest) = (Braced n, rest)"
    by (simp add: pattern_match_def idpattern_def char_class_defs)
  then show ?thesis by simp
qed

lemma convert_found:
  "datum n = Some v \<Longrightarrow> convert str datum (Named n) = Inr (str v)"
  "datum n = Some v \<Longrightarrow> convert str datum (Braced n) = Inr (str v)"
  by (simp_all add: convert_def)

lemma convert_escaped: "convert str datum Escaped = Inr ''@''"
  by (simp add: convert_def)

lemma substitute_written:
  assumes "well_segmented segs" and "set (placeholder_names segs) \<subseteq> dom datum"
  shows "pattern_sub (convert str datum) (finditer (written segs)) =
           Inr (filled (\<lambda>n. str (the (datum n))) segs)"
  using assms
proof (induction segs rule: written.induct)
  case 1
  then show ?case by simp
next
  case (2 s segs)
  then show ?case by (simp add: finditer_literals pattern_sub_literals)
next
  case (3 n segs)
  from "3.prems" have id: "is_identifier n"
    and nxt: "list_all (\<lambda>c. \<not> id_char c) (take 1 (written segs))"
    and rest: "well_segmented segs" "set (placeholder_names segs) \<subseteq> dom datum"
    by simp_all
  from "3.prems" obtain v where v: "datum n = Some v" by auto
  have "finditer (written (Placeholder n # segs)) = Match (Named n) # finditer (written segs)"
    using finditer_named [OF id nxt] by simp
  with "3.IH" [OF rest] v show ?case by (simp add: convert_found)
next
  case (4 n segs)
  from "4.prems" have id: "is_identifier n"
    and rest: "well_segmented segs" "set (placeholder_names segs) \<subseteq> dom datum"
    by simp_all
  from "4.prems" obtain v where v: "datum n = Some v" by auto
  have "finditer (written (BracedPlaceholder n # segs)) = Match (Braced n) # finditer (written segs)"
    using finditer_braced [OF id] by simp
  with "4.IH" [OF rest] v show ?case by (simp add: convert_found)
next
  case (5 segs)
  then show ?case by (simp add: finditer_escape convert_escaped del: finditer.simps)
qed


lemma filled_cong:
  "(\<And>n. n \<in> set (placeholder_names segs) \<Longrightarrow> f n = g n) \<Longrightarrow> filled f segs = filled g segs"
  by (induction segs rule: placeholder_names.induct) auto

lemma substitute_segments:
  assumes "well_segmented segs" and "set (placeholder_names segs) \<subseteq> dom datum"
  shows "substitute str (Some (written segs)) datum = Inr (filled (\<lambda>n. str (the (datum n))) segs)"
  using substitute_written [OF assms] by (simp add: substitute_def)

lemma render_loop_map:
  "(\<And>d. d \<in> set data \<Longrightarrow> render_datum str self d = Inr (f d)) \<Longrightarrow>
     render_loop str self data acc = Inr (acc @ map f data)"
  by (induction data arbitrary: acc) auto

lemma render_map:
  "(\<And>d. d \<in> set data \<Longrightarrow> render_datum str self d = Inr (f d)) \<Longrightarrow>
     render str self data = Inr (map f data)"
  by (simp add: render_def render_loop_map)

lemmas template_eval =
  substitute_def pattern_match_def idpattern_def convert_def is_identifier_def char_class_defs

lemma idpattern_sound:
  assumes "idpattern s = Some (n, rest)"
  shows "s = n @ rest \<and> is_identifier n \<and> list_all (\<lambda>c. \<not> id_char c) (take 1 rest)"
proof -
  from assms obtain c cs where s: "s = c # cs" and c: "id_start c"
    and n: "n = c # takeWhile id_char cs" and rest: "rest = dropWhile id_char cs"
    by (cases s) (auto simp: idpattern_def split: if_splits)
  have "list_all (\<lambda>c. \<not> id_char c) (take 1 rest)"
  proof (cases "dropWhile id_char cs")
    case Nil
    show ?thesis unfolding rest Nil by simp
  next
    case (Cons y ys)
    with hd_dropWhile [of id_char cs] have "\<not> id_char y" by simp
    then show ?thesis unfolding rest Cons by simp
  qed
  moreover have "list_all id_char (takeWhile id_char cs)"
    by (auto simp: list_all_iff dest: set_takeWhileD)
  ultimately show ?thesis
    using s c n rest by (simp add: is_identifier_def)
qed

lemma pattern_match_sound:
  assumes "pattern_match cs = (mo, rest)"
  shows "case mo of
           Escaped \<Rightarrow> cs = CHR ''@'' # rest
         | Named n \<Rightarrow> cs = n @ rest \<and> is_identifier n \<and> list_all (\<lambda>c. \<not> id_char c) (take 1 rest)
         | Braced n \<Rightarrow> cs = CHR ''{'' # n @ CHR ''}'' # rest \<and> is_identifier n
         | Invalid \<Rightarrow> rest = cs"
proof (cases cs)
  case Nil
  with assms show ?thesis by (auto simp: pattern_match_def)
next
  case (Cons c cs')
  show ?thesis
  proof (cases "c = CHR ''@''")
    case True
    with assms Cons show ?thesis by (auto simp: pattern_match_def)
  next
    case False
    show ?thesis
    proof (cases "idpattern cs")
      case (Some a)
      then obtain n r where a: "idpattern cs = Some (n, r)" by (cases a) auto
      with assms Cons False have "mo = Named n" "rest = r"
        by (auto simp: pattern_match_def)
      with idpattern_sound [OF a] show ?thesis by simp
    next
      case None
      show ?thesis
      proof (cases "c = CHR ''{''")
        case brace: True
        show ?thesis
        proof (cases "idpattern cs'")
          case inner: (Some a)
          then obtain n r where a: "idpattern cs' = Some (n, r)" by (cases a) auto
          from idpattern_sound [OF a] have snd: "cs' = n @ r" "is_identifier n" by simp_all
          from assms Cons False None brace a snd show ?thesis
            by (cases r) (auto simp: pattern_match_def split: if_splits)
        next
          case inner: None
          with assms Cons False None brace show ?thesis
            by (auto simp: pattern_match_def)
        qed
      next
        case nobrace: False
        with assms Cons False None show ?thesis
          by (auto simp: pattern_match_def)
      qed
    qed
  qed
qed

lemma written_segments: "written (segments (finditer t)) = t"
proof (induction t rule: finditer.induct)
  case 1
  then show ?case by simp
next
  case (2 c cs)
  show ?case
  proof (cases "c = CHR ''@''")
    case False
    with 2 show ?thesis by simp
  next
    case True
    obtain mo rest where m: "pattern_match cs = (mo, rest)" by (cases "pattern_match cs")
    from 2(1) [OF True m [symmetric]] have IH: "written (segments (finditer rest)) = rest" .
    from pattern_match_sound [OF m] IH True m show ?thesis
      by (cases mo) simp_all
  qed
qed

lemma well_segmented_segments:
  "Match Invalid \<notin> set (finditer t) \<Longrightarrow> well_segmented (segments (finditer t))"
proof (induction t rule: finditer.induct)
  case 1
  then show ?case by simp
next
  case (2 c cs)
  show ?case
  proof (cases "c = CHR ''@''")
    case False
    with 2 show ?thesis by simp
  next
    case True
    obtain mo rest where m: "pattern_match cs = (mo, rest)" by (cases "pattern_match cs")
    from 2(3) True m have valid: "mo \<noteq> Invalid" "Match Invalid \<notin> set (finditer rest)"
      by auto
    from 2(1) [OF True m [symmetric] valid(2)]
    have IH: "well_segmented (segments (finditer rest))" .
    from pattern_match_sound [OF m] IH True m valid(1) show ?thesis
      by (cases mo) (simp_all add: written_segments)
  qed
qed

lemma finditer_written:
  "well_segmented segs \<Longrightarrow>
     Match Invalid \<notin> set (finditer (written segs))
     \<and> identifiers (finditer (written segs)) = placeholder_names segs"
proof (induction segs rule: written.induct)
  case 1
  then show ?case by simp
next
  case (2 s segs)
  have "identifiers (map Literal s @ ps) = identifiers ps" for ps
    by (induction s) auto
  with 2 show ?case by (auto simp: finditer_literals)
next
  case (3 n segs)
  from "3.prems" have id: "is_identifier n"
    and nxt: "list_all (\<lambda>c. \<not> id_char c) (take 1 (written segs))"
    and rest: "well_segmented segs"
    by simp_all
  have "finditer (written (Placeholder n # segs)) = Match (Named n) # finditer (written segs)"
    using finditer_named [OF id nxt] by simp
  with "3.IH" [OF rest] show ?case by simp
next
  case (4 n segs)
  from "4.prems" have id: "is_identifier n" and rest: "well_segmented segs"
    by simp_all
  have "finditer (written (BracedPlaceholder n # segs)) = Match (Braced n) # finditer (written segs)"
    using finditer_braced [OF id] by simp
  with "4.IH" [OF rest] show ?case by simp
next
  case (5 segs)
  then show ?case by (simp add: finditer_escape del: finditer.simps)
qed

lemma is_valid_iff_written:
  "is_valid t \<longleftrightarrow> (\<exists>segs. well_segmented segs \<and> written segs = t)"
proof
  assume "is_valid t"
  then have "well_segmented (segments (finditer t))"
    by (simp add: is_valid_def well_segmented_segments)
  with written_segments show "\<exists>segs. well_segmented segs \<and> written segs = t" by blast
next
  assume "\<exists>segs. well_segmented segs \<and> written segs = t"
  then show "is_valid t"
    using finditer_written by (auto simp: is_valid_def)
qed

lemma get_identifiers_written:
  "well_segmented segs \<Longrightarrow> get_identifiers (written segs) = placeholder_names segs"
  by (simp add: get_identifiers_def finditer_written)

lemma pattern_sub_missing:
  "n \<in> set (identifiers ps) \<Longrightarrow> datum n = None \<Longrightarrow>
     \<exists>e. pattern_sub (convert str datum) ps = Inl e"
  by (induction ps rule: identifiers.induct)
     (auto simp: convert_def split: sum.splits option.splits)

lemma pattern_sub_error:
  "pattern_sub (convert str datum) ps = Inl e \<Longrightarrow>
     (\<exists>k. e = KeyError k \<and> datum k = None \<and> k \<in> set (identifiers ps))
     \<or> (e = ValueError \<and> Match Invalid \<in> set ps)"
  by (induction ps rule: identifiers.induct)
     (auto simp: convert_def split: sum.splits option.splits)

text \<open>
  Claim C8 (corrected). For a template whose instruction and solution hold no malformed
  delimiter, that is, each can be written from text without delimiter, placeholders
  \<^verbatim>\<open>@identifier\<close>, braced placeholders and escapes, and for data dictionaries whose
  keys cover the placeholders of the template, \<open>render\<close> replaces every placeholder
  of the instruction and of the solution by \<^verbatim>\<open>str(data[identifier])\<close> and keeps the
  rest of the text, one rendered pair per dictionary and in their order; keys that the
  template does not use change nothing. The placeholders of such a template are the
  names of its placeholder segments, and the templates without malformed delimiter are
  exactly the strings that can be written so. The witness holds the specification's
  example (data \<^verbatim>\<open>{"x": "1"}\<close>, instruction \<^verbatim>\<open>Value: @x\<close>, solution
  \<^verbatim>\<open>@x is the value\<close>) and a template with digits, capitals and underscores in its
  identifiers, a braced placeholder and an escape.
\<close>

theorem render_substitutes_placeholders:
  assumes i: "instruction self = Some (written isegs)" "well_segmented isegs"
    and s: "solution self = Some (written ssegs)" "well_segmented ssegs"
    and cover: "\<forall>datum \<in> set data.
        set (get_identifiers (written isegs)) \<union> set (get_identifiers (written ssegs)) \<subseteq> dom datum"
    and unused: "dom extra \<inter>
        (set (get_identifiers (written isegs)) \<union> set (get_identifiers (written ssegs))) = {}"
  shows "render str self data =
           Inr (map (\<lambda>datum.
                  \<lparr>rendered_instruction = filled (\<lambda>n. str (the (datum n))) isegs,
                   rendered_solution = filled (\<lambda>n. str (the (datum n))) ssegs\<rparr>) data)
         \<and> render str self (map (\<lambda>datum. datum ++ extra) data) = render str self data
         \<and> get_identifiers (written isegs) = placeholder_names isegs
         \<and> get_identifiers (written ssegs) = placeholder_names ssegs
         \<and> (\<forall>t. is_valid t \<longleftrightarrow> (\<exists>segs. well_segmented segs \<and> written segs = t))"
proof -
  let ?out = "\<lambda>datum.
     \<lparr>rendered_instruction = filled (\<lambda>n. str (the (datum n))) isegs,
      rendered_solution = filled (\<lambda>n. str (the (datum n))) ssegs\<rparr>"
  have names: "get_identifiers (written isegs) = placeholder_names isegs"
      "get_identifiers (written ssegs) = placeholder_names ssegs"
    using i(2) s(2) by (simp_all add: get_identifiers_written)
  have one: "render_datum str self d = Inr (?out d)"
    if "set (placeholder_names isegs) \<union> set (placeholder_names ssegs) \<subseteq> dom d" for d
    using that i s by (simp add: render_datum_def substitute_segments)
  have first: "render str self data = Inr (map ?out data)"
    using cover unfolding names by (intro render_map one) blast
  have same: "(d ++ extra) n = d n"
    if "n \<in> set (placeholder_names isegs) \<union> set (placeholder_names ssegs)" for d n
    using that unused unfolding names by (auto simp: map_add_def split: option.splits)
  have "render_datum str self (d ++ extra) = Inr (?out d)" if "d \<in> set data" for d
  proof -
    from that cover
    have sub: "set (placeholder_names isegs) \<union> set (placeholder_names ssegs) \<subseteq> dom (d ++ extra)"
      unfolding names by auto
    have "?out (d ++ extra) = ?out d"
      using same by (auto intro!: filled_cong)
    with one [OF sub] show ?thesis by simp
  qed
  then have "render_loop str self (map (\<lambda>datum. datum ++ extra) data) acc = Inr (acc @ map ?out data)" for acc
    by (induction data arbitrary: acc) auto
  then have "render str self (map (\<lambda>datum. datum ++ extra) data) = Inr (map ?out data)"
    by (simp add: render_def)
  with first names is_valid_iff_written show ?thesis by simp
qed

theorem render_substitutes_placeholders_witness:
  "render (\<lambda>s. s)
      \<lparr>text_id = None, text_content_type = ContentType (Subclass ''kind''),
       instruction = Some ''Value: @x'', solution = Some ''@x is the value''\<rparr>
      [[''x'' \<mapsto> ''1'']] =
     Inr [\<lparr>rendered_instruction = ''Value: 1'', rendered_solution = ''1 is the value''\<rparr>]
   \<and> render (\<lambda>s. s)
      \<lparr>text_id = None, text_content_type = ContentType (Subclass ''kind''),
       instruction = Some ''Value: @x'', solution = Some ''@x is the value''\<rparr>
      [[''x'' \<mapsto> ''1'', ''y'' \<mapsto> ''2'']] =
     Inr [\<lparr>rendered_instruction = ''Value: 1'', rendered_solution = ''1 is the value''\<rparr>]
   \<and> render (\<lambda>s. s)
      \<lparr>text_id = None, text_content_type = ContentType (Subclass ''kind''),
       instruction = Some (''Sum: @a_1+@'' @ ''{B2}c for @@''), solution = Some ''@_s9''\<rparr>
      [[''a_1'' \<mapsto> ''3'', ''B2'' \<mapsto> ''4'', ''_s9'' \<mapsto> ''7''],
       [''a_1'' \<mapsto> ''5'', ''B2'' \<mapsto> ''6'', ''_s9'' \<mapsto> ''11'']] =
     Inr [\<lparr>rendered_instruction = ''Sum: 3+4c for @'', rendered_solution = ''7''\<rparr>,
          \<lparr>rendered_instruction = ''Sum: 5+6c for @'', rendered_solution = ''11''\<rparr>]"
proof -
  have a: "render (\<lambda>s. s)
      \<lparr>text_id = None, text_content_type = ContentType (Subclass ''kind''),
       instruction = Some ''Value: @x'', solution = Some ''@x is the value''\<rparr>
      [[''x'' \<mapsto> ''1'']] =
     Inr [\<lparr>rendered_instruction = ''Value: 1'', rendered_solution = ''1 is the value''\<rparr>]
   \<and> render (\<lambda>s. s)
      \<lparr>text_id = None, text_content_type = ContentType (Subclass ''kind''),
       instruction = Some ''Value: @x'', solution = Some ''@x is the value''\<rparr>
      [[''x'' \<mapsto> ''1'', ''y'' \<mapsto> ''2'']] =
     Inr [\<lparr>rendered_instruction = ''Value: 1'', rendered_solution = ''1 is the value''\<rparr>]"
    using render_substitutes_placeholders
      [where str = "\<lambda>s. s" and isegs = "[Text ''Value: '', Placeholder ''x'']"
         and ssegs = "[Placeholder ''x'', Text '' is the value'']"
         and data = "[[''x'' \<mapsto> ''1'']]" and extra = "[''y'' \<mapsto> ''2'']"
         and self = "\<lparr>text_id = None, text_content_type = ContentType (Subclass ''kind''),
         instruction = Some ''Value: @x'', solution = Some ''@x is the value''\<rparr>"]
    by (simp add: is_identifier_def char_class_defs get_identifiers_def pattern_match_def
          idpattern_def)
  have b: "render (\<lambda>s. s)
      \<lparr>text_id = None, text_content_type = ContentType (Subclass ''kind''),
       instruction = Some (''Sum: @a_1+@'' @ ''{B2}c for @@''), solution = Some ''@_s9''\<rparr>
      [[''a_1'' \<mapsto> ''3'', ''B2'' \<mapsto> ''4'', ''_s9'' \<mapsto> ''7''],
       [''a_1'' \<mapsto> ''5'', ''B2'' \<mapsto> ''6'', ''_s9'' \<mapsto> ''11'']] =
     Inr [\<lparr>rendered_instruction = ''Sum: 3+4c for @'', rendered_solution = ''7''\<rparr>,
          \<lparr>rendered_instruction = ''Sum: 5+6c for @'', rendered_solution = ''11''\<rparr>]"
    using render_substitutes_placeholders
      [where str = "\<lambda>s. s"
         and isegs = "[Text ''Sum: '', Placeholder ''a_1'', Text ''+'', BracedPlaceholder ''B2'',
                       Text ''c for '', Escape]"
         and ssegs = "[Placeholder ''_s9'']"
         and data = "[[''a_1'' \<mapsto> ''3'', ''B2'' \<mapsto> ''4'', ''_s9'' \<mapsto> ''7''],
                      [''a_1'' \<mapsto> ''5'', ''B2'' \<mapsto> ''6'', ''_s9'' \<mapsto> ''11'']]"
         and extra = "Map.empty"
         and self = "\<lparr>text_id = None, text_content_type = ContentType (Subclass ''kind''),
         instruction = Some (''Sum: @a_1+@'' @ ''{B2}c for @@''), solution = Some ''@_s9''\<rparr>"]
    by (simp add: is_identifier_def char_class_defs get_identifiers_def pattern_match_def
          idpattern_def)
  from a b show ?thesis by simp
qed

text \<open>
  The claim as stated fails: the keys of the dictionary cover the one placeholder of the
  template, and the render call raises \<^verbatim>\<open>ValueError\<close> at the delimiter before the
  space instead of substituting.
\<close>

theorem covered_placeholders_counterexample:
  "set (get_identifiers ''50% @ home: @x'') \<subseteq> dom [''x'' \<mapsto> ''1'']
   \<and> render (\<lambda>s. s)
      \<lparr>text_id = None, text_content_type = ContentType (Subclass ''kind''),
       instruction = Some ''50% @ home: @x'', solution = Some ''@x''\<rparr>
      [[''x'' \<mapsto> ''1'']] = Inl ValueError"
  by (simp add: render_def render_datum_def template_eval get_identifiers_def)

lemma pattern_sub_append:
  "pattern_sub repl (ps @ qs) =
     (case pattern_sub repl ps of
        Inl e \<Rightarrow> Inl e
      | Inr a \<Rightarrow> (case pattern_sub repl qs of Inl e \<Rightarrow> Inl e | Inr b \<Rightarrow> Inr (a @ b)))"
  by (induction repl ps rule: pattern_sub.induct) (auto split: sum.splits)

lemma finditer_written_append:
  assumes "well_segmented segs" and "list_all (\<lambda>c. \<not> id_char c) (take 1 x)"
  shows "finditer (written segs @ x) = finditer (written segs) @ finditer x"
  using assms(1)
proof (induction segs rule: written.induct)
  case 1
  then show ?case by simp
next
  case (2 s segs)
  then show ?case by (simp add: finditer_literals)
next
  case (3 n segs)
  from "3.prems" have id: "is_identifier n"
    and nxt: "list_all (\<lambda>c. \<not> id_char c) (take 1 (written segs))"
    and rest: "well_segmented segs"
    by simp_all
  from nxt assms(2) have nxt': "list_all (\<lambda>c. \<not> id_char c) (take 1 (written segs @ x))"
    by (cases "written segs") simp_all
  have "finditer (written (Placeholder n # segs) @ x) =
          Match (Named n) # finditer (written segs @ x)"
    using finditer_named [OF id nxt'] by simp
  moreover have "finditer (written (Placeholder n # segs)) = Match (Named n) # finditer (written segs)"
    using finditer_named [OF id nxt] by simp
  ultimately show ?case using "3.IH" [OF rest] by simp
next
  case (4 n segs)
  from "4.prems" have id: "is_identifier n" and rest: "well_segmented segs"
    by simp_all
  have "finditer (written (BracedPlaceholder n # segs) @ x) =
          Match (Braced n) # finditer (written segs @ x)"
    using finditer_braced [OF id, of "written segs @ x"] by simp
  moreover have "finditer (written (BracedPlaceholder n # segs)) =
          Match (Braced n) # finditer (written segs)"
    using finditer_braced [OF id] by simp
  ultimately show ?case using "4.IH" [OF rest] by simp
next
  case (5 segs)
  then show ?case by (simp add: finditer_escape del: finditer.simps)
qed

lemma delimiter_no_id_char: "list_all (\<lambda>c. \<not> id_char c) (take 1 (CHR ''@'' # s))"
  by (simp add: char_class_defs)

lemma lone_delimiter_iff: "lone_delimiter post \<longleftrightarrow> pattern_match post = (Invalid, post)"
proof (cases post)
  case Nil
  then show ?thesis by (simp add: lone_delimiter_def pattern_match_def)
next
  case (Cons c cs)
  show ?thesis
  proof
    assume lone: "lone_delimiter post"
    with Cons have c: "c \<noteq> CHR ''@''" "\<not> id_start c"
      and brace: "c = CHR ''{'' \<Longrightarrow> \<not> (\<exists>n rest. is_identifier n \<and> cs = n @ CHR ''}'' # rest)"
      by (auto simp: lone_delimiter_def)
    from c Cons have none: "idpattern post = None" by (simp add: idpattern_def)
    show "pattern_match post = (Invalid, post)"
    proof (cases "c = CHR ''{''")
      case False
      with c none Cons show ?thesis by (simp add: pattern_match_def)
    next
      case True
      show ?thesis
      proof (cases "idpattern cs")
        case None
        with c none Cons True show ?thesis by (simp add: pattern_match_def)
      next
        case (Some a)
        then obtain n after where a: "idpattern cs = Some (n, after)" by (cases a) auto
        from idpattern_sound [OF a] have "cs = n @ after" "is_identifier n" by simp_all
        with brace [OF True] have "after = [] \<or> hd after \<noteq> CHR ''}''"
          by (cases after) auto
        with c none Cons True a show ?thesis
          by (cases after) (auto simp: pattern_match_def)
      qed
    qed
  next
    assume inv: "pattern_match post = (Invalid, post)"
    from inv Cons have c: "c \<noteq> CHR ''@''"
      by (auto simp: pattern_match_def)
    from inv Cons c have none: "idpattern post = None"
      by (auto simp: pattern_match_def split: option.splits)
    with Cons have start: "\<not> id_start c" by (auto simp: idpattern_def split: if_splits)
    have "\<not> (\<exists>n rest. is_identifier n \<and> cs = n @ CHR ''}'' # rest)" if "c = CHR ''{''"
    proof
      assume "\<exists>n rest. is_identifier n \<and> cs = n @ CHR ''}'' # rest"
      then obtain n rest where n: "is_identifier n" and cs: "cs = n @ CHR ''}'' # rest" by blast
      have "list_all (\<lambda>c. \<not> id_char c) (take 1 (CHR ''}'' # rest))"
        by (simp add: char_class_defs)
      from idpattern_identifier [OF n this] cs
      have "idpattern cs = Some (n, CHR ''}'' # rest)" by simp
      with inv Cons c none that show False by (simp add: pattern_match_def)
    qed
    with c start Cons show "lone_delimiter post" by (simp add: lone_delimiter_def)
  qed
qed

lemma finditer_lone: "lone_delimiter post \<Longrightarrow> finditer (CHR ''@'' # post) = Match Invalid # finditer post"
  by (simp add: lone_delimiter_iff)

lemma convert_invalid: "convert str datum Invalid = Inl ValueError"
  by (simp add: convert_def)

lemma pattern_sub_invalid:
  "Match Invalid \<in> set ps \<Longrightarrow> \<exists>e. pattern_sub (convert str datum) ps = Inl e"
  by (induction ps rule: identifiers.induct)
     (auto simp: convert_def split: sum.splits option.splits)

lemma substitute_written_missing:
  assumes "well_segmented segs" and "\<not> set (placeholder_names segs) \<subseteq> dom datum"
  shows "\<exists>k. substitute str (Some (written segs)) datum = Inl (KeyError k)
            \<and> k \<in> set (placeholder_names segs) \<and> datum k = None"
proof -
  from finditer_written [OF assms(1)]
  have valid: "Match Invalid \<notin> set (finditer (written segs))"
    and ids: "identifiers (finditer (written segs)) = placeholder_names segs"
    by simp_all
  from assms(2) obtain n where "n \<in> set (identifiers (finditer (written segs)))" "datum n = None"
    unfolding ids by auto
  from pattern_sub_missing [of n "finditer (written segs)" datum str] this
  obtain e where e: "pattern_sub (convert str datum) (finditer (written segs)) = Inl e" by blast
  from pattern_sub_error [OF e] valid ids e show ?thesis
    by (auto simp: substitute_def)
qed

lemma invalid_template_shape:
  "Match Invalid \<in> set (finditer t) \<Longrightarrow>
     \<exists>segs post. well_segmented segs \<and> lone_delimiter post \<and> t = written segs @ ''@'' @ post"
proof (induction t rule: finditer.induct)
  case 1
  then show ?case by simp
next
  case (2 c cs)
  show ?case
  proof (cases "c = CHR ''@''")
    case False
    with 2 obtain segs post where "well_segmented segs" "lone_delimiter post"
      "cs = written segs @ ''@'' @ post" by auto
    with False have "well_segmented (Text [c] # segs) \<and> lone_delimiter post
        \<and> c # cs = written (Text [c] # segs) @ ''@'' @ post" by simp
    then show ?thesis by blast
  next
    case True
    obtain mo rest where m: "pattern_match cs = (mo, rest)" by (cases "pattern_match cs")
    show ?thesis
    proof (cases "mo = Invalid")
      case inv: True
      with m pattern_match_sound [OF m] have "pattern_match cs = (Invalid, cs)" by simp
      then have "lone_delimiter cs" by (simp add: lone_delimiter_iff)
      with True have "well_segmented [] \<and> lone_delimiter cs \<and> c # cs = written [] @ ''@'' @ cs"
        by simp
      then show ?thesis by blast
    next
      case valid: False
      with 2(3) True m have "Match Invalid \<in> set (finditer rest)" by auto
      from 2(1) [OF True m [symmetric] this]
      obtain segs post where segs: "well_segmented segs" and post: "lone_delimiter post"
        and rest: "rest = written segs @ ''@'' @ post" by blast
      have bound: "list_all (\<lambda>c. \<not> id_char c) (take 1 (written segs))"
        if "list_all (\<lambda>c. \<not> id_char c) (take 1 rest)"
        using that rest by (cases "written segs") simp_all
      show ?thesis
      proof (cases mo)
        case Escaped
        with pattern_match_sound [OF m] True rest segs post
        have "well_segmented (Escape # segs) \<and> lone_delimiter post
            \<and> c # cs = written (Escape # segs) @ ''@'' @ post"
          by simp
        then show ?thesis by blast
      next
        case (Named n)
        with pattern_match_sound [OF m] True rest segs post bound
        have "well_segmented (Placeholder n # segs) \<and> lone_delimiter post
            \<and> c # cs = written (Placeholder n # segs) @ ''@'' @ post"
          by simp
        then show ?thesis by blast
      next
        case (Braced n)
        with pattern_match_sound [OF m] True rest segs post
        have "well_segmented (BracedPlaceholder n # segs) \<and> lone_delimiter post
            \<and> c # cs = written (BracedPlaceholder n # segs) @ ''@'' @ post"
          by simp
        then show ?thesis by blast
      next
        case Invalid
        with valid show ?thesis by simp
      qed
    qed
  qed
qed


text \<open>
  Claim C9 (corrected). The sequence \<^verbatim>\<open>@@\<close> is an escape: after any well-formed
  beginning of a template it renders one \<^verbatim>\<open>@\<close>, and the text after it is rendered
  on its own, so no substitution is attempted on what follows the escape
  (\<^verbatim>\<open>Price: @@5\<close> renders to \<^verbatim>\<open>Price: @5\<close>). A single delimiter that starts
  neither an escape, nor a placeholder, nor a braced placeholder is never passed
  through. A template is invalid exactly when it holds such a delimiter after a
  well-formed beginning, and every render of an invalid template fails: with
  \<^verbatim>\<open>ValueError\<close> when the data have a key for every placeholder before the
  delimiter, and otherwise with \<^verbatim>\<open>KeyError\<close> for one of those placeholders.
\<close>

theorem escape_and_invalid_delimiter:
  assumes "well_segmented segs"
  shows "substitute str (Some (written segs @ ''@@'' @ post)) datum =
           (case substitute str (Some (written segs)) datum of
              Inl e \<Rightarrow> Inl e
            | Inr before \<Rightarrow>
                (case substitute str (Some post) datum of
                   Inl e \<Rightarrow> Inl e
                 | Inr after \<Rightarrow> Inr (before @ ''@'' @ after)))
         \<and> (lone_delimiter post \<longrightarrow>
              \<not> is_valid (written segs @ ''@'' @ post)
              \<and> (set (placeholder_names segs) \<subseteq> dom datum \<longrightarrow>
                   substitute str (Some (written segs @ ''@'' @ post)) datum = Inl ValueError)
              \<and> (\<not> set (placeholder_names segs) \<subseteq> dom datum \<longrightarrow>
                   (\<exists>k. substitute str (Some (written segs @ ''@'' @ post)) datum = Inl (KeyError k)
                        \<and> k \<in> set (placeholder_names segs) \<and> datum k = None)))
         \<and> (\<forall>t. \<not> is_valid t \<longleftrightarrow>
                (\<exists>segs post. well_segmented segs \<and> lone_delimiter post
                     \<and> t = written segs @ ''@'' @ post))
         \<and> (\<forall>t. \<not> is_valid t \<longrightarrow> (\<exists>e. substitute str (Some t) datum = Inl e))"
proof -
  have split: "finditer (written segs @ CHR ''@'' # x) = finditer (written segs) @ finditer (CHR ''@'' # x)"
    for x
    by (rule finditer_written_append [OF assms delimiter_no_id_char])
  have escape: "substitute str (Some (written segs @ ''@@'' @ post)) datum =
           (case substitute str (Some (written segs)) datum of
              Inl e \<Rightarrow> Inl e
            | Inr before \<Rightarrow>
                (case substitute str (Some post) datum of
                   Inl e \<Rightarrow> Inl e
                 | Inr after \<Rightarrow> Inr (before @ ''@'' @ after)))"
    using split [of "CHR ''@'' # post"]
    by (simp add: substitute_def pattern_sub_append finditer_escape convert_escaped
          del: finditer.simps split: sum.splits)
  have lone: "\<not> is_valid (written segs @ ''@'' @ post)
      \<and> (set (placeholder_names segs) \<subseteq> dom datum \<longrightarrow>
           substitute str (Some (written segs @ ''@'' @ post)) datum = Inl ValueError)
      \<and> (\<not> set (placeholder_names segs) \<subseteq> dom datum \<longrightarrow>
           (\<exists>k. substitute str (Some (written segs @ ''@'' @ post)) datum = Inl (KeyError k)
                \<and> k \<in> set (placeholder_names segs) \<and> datum k = None))"
    if lone: "lone_delimiter post"
  proof (intro conjI impI)
    have pieces: "finditer (written segs @ CHR ''@'' # post) =
        finditer (written segs) @ Match Invalid # finditer post"
      using split [of post] finditer_lone [OF lone] by simp
    then show "\<not> is_valid (written segs @ ''@'' @ post)"
      by (simp add: is_valid_def)
    show "substitute str (Some (written segs @ ''@'' @ post)) datum = Inl ValueError"
      if "set (placeholder_names segs) \<subseteq> dom datum"
      using substitute_segments [OF assms that, of str]
      by (simp add: substitute_def pieces pattern_sub_append convert_invalid)
    show "\<exists>k. substitute str (Some (written segs @ ''@'' @ post)) datum = Inl (KeyError k)
                \<and> k \<in> set (placeholder_names segs) \<and> datum k = None"
      if "\<not> set (placeholder_names segs) \<subseteq> dom datum"
      using substitute_written_missing [OF assms that, of str]
      by (auto simp: substitute_def pieces pattern_sub_append)
  qed
  have shape: "\<not> is_valid t \<longleftrightarrow>
        (\<exists>segs post. well_segmented segs \<and> lone_delimiter post \<and> t = written segs @ ''@'' @ post)"
    for t
  proof
    assume "\<not> is_valid t"
    then have "Match Invalid \<in> set (finditer t)" by (simp add: is_valid_def)
    then show "\<exists>segs post. well_segmented segs \<and> lone_delimiter post \<and> t = written segs @ ''@'' @ post"
      by (rule invalid_template_shape)
  next
    assume "\<exists>segs post. well_segmented segs \<and> lone_delimiter post \<and> t = written segs @ ''@'' @ post"
    then obtain ss p where ss: "well_segmented ss" and p: "lone_delimiter p"
      and t: "t = written ss @ ''@'' @ p" by blast
    have "finditer (written ss @ CHR ''@'' # p) = finditer (written ss) @ finditer (CHR ''@'' # p)"
      by (rule finditer_written_append [OF ss delimiter_no_id_char])
    with finditer_lone [OF p] t show "\<not> is_valid t"
      by (simp add: is_valid_def)
  qed
  have fails: "\<exists>e. substitute str (Some t) datum = Inl e" if "\<not> is_valid t" for t
    using that by (simp add: is_valid_def substitute_def pattern_sub_invalid)
  from escape lone shape fails show ?thesis by blast
qed

theorem escape_and_invalid_delimiter_witness:
  "substitute (\<lambda>s. s) (Some ''Price: @@5'') Map.empty = Inr ''Price: @5''
   \<and> substitute (\<lambda>s. s) (Some ''Price: @5'') Map.empty = Inl ValueError
   \<and> substitute (\<lambda>s. s) (Some ''@a @@b @a'') [''a'' \<mapsto> ''1''] = Inr ''1 @b 1''
   \<and> substitute (\<lambda>s. s) (Some ''@a @ '') [''a'' \<mapsto> ''1''] = Inl ValueError
   \<and> substitute (\<lambda>s. s) (Some ''@a @ '') Map.empty = Inl (KeyError ''a'')"
proof -
  have seg: "well_segmented [Text ''Price: '']" "well_segmented [Placeholder ''a'', Text '' '']"
    by (simp_all add: is_identifier_def char_class_defs)
  have lone: "lone_delimiter ''5''" "lone_delimiter '' ''"
    by (simp_all add: lone_delimiter_def char_class_defs)
  from escape_and_invalid_delimiter [OF seg(1), of "\<lambda>s. s" "''5''" Map.empty] lone(1)
  have a: "substitute (\<lambda>s. s) (Some ''Price: @@5'') Map.empty = Inr ''Price: @5''
      \<and> substitute (\<lambda>s. s) (Some ''Price: @5'') Map.empty = Inl ValueError"
    by (simp add: substitute_def)
  from escape_and_invalid_delimiter [OF seg(2), of "\<lambda>s. s" "''b @a''" "[''a'' \<mapsto> ''1'']"]
  have b: "substitute (\<lambda>s. s) (Some ''@a @@b @a'') [''a'' \<mapsto> ''1''] = Inr ''1 @b 1''"
    by (simp add: template_eval)
  from escape_and_invalid_delimiter [OF seg(2), of "\<lambda>s. s" "'' ''" "[''a'' \<mapsto> ''1'']"] lone(2)
  have c: "substitute (\<lambda>s. s) (Some ''@a @ '') [''a'' \<mapsto> ''1''] = Inl ValueError"
    by simp
  from escape_and_invalid_delimiter [OF seg(2), of "\<lambda>s. s" "'' ''" Map.empty] lone(2)
  have d: "substitute (\<lambda>s. s) (Some ''@a @ '') Map.empty = Inl (KeyError ''a'')"
    by simp
  from a b c d show ?thesis by simp
qed

text \<open>
  The claim as stated fails: a template with a delimiter before a space does not render
  to itself, the render call raises \<^verbatim>\<open>ValueError\<close>.
\<close>

theorem lone_delimiter_counterexample:
  "render (\<lambda>s. s)
      \<lparr>text_id = None, text_content_type = ContentType (Subclass ''kind''),
       instruction = Some ''Mail a@ b'', solution = Some ''''\<rparr>
      [Map.empty] = Inl ValueError"
  by (simp add: render_def render_datum_def template_eval)

lemma substitute_missing:
  "n \<in> set (get_identifiers t) \<Longrightarrow> datum n = None \<Longrightarrow>
     \<exists>e. substitute str (Some t) datum = Inl e"
  by (simp add: substitute_def get_identifiers_def pattern_sub_missing)

lemma substitute_error:
  "substitute str (Some t) datum = Inl e \<Longrightarrow>
     (\<exists>k. e = KeyError k \<and> datum k = None \<and> k \<in> set (get_identifiers t))
     \<or> (e = ValueError \<and> \<not> is_valid t)"
  unfolding substitute_def get_identifiers_def is_valid_def
  using pattern_sub_error [of str datum "finditer t" e] by simp

lemma render_first_error:
  "render_datum str self datum = Inl e \<Longrightarrow> render str self (datum # data) = Inl e"
  by (simp add: render_def)

text \<open>
  Claim C10 (corrected). When the instruction or the solution holds a placeholder whose
  identifier is no key of the first data dictionary, the render call fails. It raises
  \<^verbatim>\<open>KeyError\<close> (the missing-placeholder error of the code) for a missing identifier
  of the template, unless a malformed delimiter is met first, in which case it raises
  \<^verbatim>\<open>ValueError\<close>; for a valid template the error is always the \<^verbatim>\<open>KeyError\<close>.
\<close>

theorem missing_placeholder_fails:
  assumes i: "instruction self = Some i" and s: "solution self = Some s"
    and n: "n \<in> set (get_identifiers i) \<union> set (get_identifiers s)"
    and missing: "datum n = None"
  shows "\<exists>e. render str self (datum # data) = Inl e \<and>
           ((\<exists>k. e = KeyError k \<and> datum k = None
                 \<and> k \<in> set (get_identifiers i) \<union> set (get_identifiers s))
            \<or> (e = ValueError \<and> \<not> (is_valid i \<and> is_valid s)))"
proof -
  let ?P = "\<lambda>e. (\<exists>k. e = KeyError k \<and> datum k = None
                 \<and> k \<in> set (get_identifiers i) \<union> set (get_identifiers s))
            \<or> (e = ValueError \<and> \<not> (is_valid i \<and> is_valid s))"
  have "\<exists>e. render_datum str self datum = Inl e \<and> ?P e"
  proof (cases "substitute str (Some i) datum")
    case (Inl e)
    with substitute_error [OF Inl] i show ?thesis
      by (auto simp: render_datum_def)
  next
    case (Inr out)
    with substitute_missing [of n i datum str] missing n
    have "n \<in> set (get_identifiers s)" by auto
    from substitute_missing [of n s datum str] this missing
    obtain e where e: "substitute str (Some s) datum = Inl e" by blast
    with substitute_error [OF e] Inr i s show ?thesis
      by (auto simp: render_datum_def)
  qed
  then show ?thesis by (auto dest: render_first_error)
qed

theorem missing_placeholder_fails_witness:
  "render (\<lambda>s. s)
      \<lparr>text_id = None, text_content_type = ContentType (Subclass ''kind''),
       instruction = Some ''Solve @equation.'', solution = Some ''x = @unknown''\<rparr>
      [[''equation'' \<mapsto> ''2x = 4'']] = Inl (KeyError ''unknown'')"
  using missing_placeholder_fails
    [where str = "\<lambda>s. s" and i = "''Solve @equation.''" and s = "''x = @unknown''"
       and n = "''unknown''" and datum = "[''equation'' \<mapsto> ''2x = 4'']" and data = "[]"
       and self = "\<lparr>text_id = None, text_content_type = ContentType (Subclass ''kind''),
       instruction = Some ''Solve @equation.'', solution = Some ''x = @unknown''\<rparr>"]
  by (simp add: render_def render_datum_def template_eval get_identifiers_def is_valid_def)

text \<open>
  The claim as stated fails: here the template holds the placeholder
  \<^verbatim>\<open>@unknown\<close>, the data lack the key, and the error is not the missing-placeholder
  error but \<^verbatim>\<open>ValueError\<close>, raised at the malformed delimiter before it.
\<close>

theorem missing_placeholder_counterexample:
  "''unknown'' \<in> set (get_identifiers ''50 @ @unknown'')
   \<and> render (\<lambda>s. s)
      \<lparr>text_id = None, text_content_type = ContentType (Subclass ''kind''),
       instruction = Some ''50 @ @unknown'', solution = Some ''''\<rparr>
      [Map.empty] = Inl ValueError"
  by (simp add: render_def render_datum_def template_eval get_identifiers_def)

section \<open>Properties of the generation of data\<close>

lemma generate_data_loop_fst:
  "map_option fst (generate_data_loop E self seed js data r1) =
   map_option fst (generate_data_loop E self seed js data r2)"
  by (cases js) simp_all

lemma generate_data_fst:
  "map_option fst (generate_data E self seed r1) = map_option fst (generate_data E self seed r2)"
  by (simp add: generate_data_def generate_data_loop_fst)

lemma generate_data_cases:
  obtains (none) "generate_data E self seed r1 = None" "generate_data E self seed r2 = None"
  | (some) res r1' r2' where "generate_data E self seed r1 = Some (res, r1')"
      "generate_data E self seed r2 = Some (res, r2')"
  using generate_data_fst [of E self seed r1 r2]
  by (cases "generate_data E self seed r1"; cases "generate_data E self seed r2") auto

text \<open>
  Claim C1. The generator of a problem is a function of the state of the random source
  (it returns its result and the new state). For a fixed problem and a fixed student,
  what \<open>student_text\<close> returns does not depend on the state of the random source
  before the call: any two calls, the second one in whatever state the first left,
  return the same sequence of rendered pairs, or raise the same exception, or both
  never return.
\<close>

theorem student_text_deterministic:
  "map_option fst (student_text E self student r1) = map_option fst (student_text E self student r2)"
proof -
  let ?seed = "Some (str_id (id' self) @ ''-'' @ str_id (student_id student))"
  show ?thesis
  proof (cases rule: generate_data_cases [of E self ?seed r1 r2])
    case none
    then show ?thesis by (simp add: student_text_def)
  next
    case (some res r1' r2')
    then show ?thesis by (cases res) (simp_all add: student_text_def)
  qed
qed

lemma subproblem_seed_None: "subproblem_seed i None = subproblem_seed i (Some ''None'')"
  by (simp add: subproblem_seed_def)

lemma generate_data_loop_None:
  "generate_data_loop E self None js data r = generate_data_loop E self (Some ''None'') js data r"
  by (induction js arbitrary: data r)
     (simp_all add: subproblem_seed_None split: option.splits prod.splits sum.splits)

text \<open>
  Claim C2 (corrected). In example mode the seed is \<^verbatim>\<open>None\<close>, and the format string
  turns it into text: subproblem \<open>i\<close> is seeded with the string \<^verbatim>\<open>i-None\<close>, exactly
  as the seed string \<^verbatim>\<open>None\<close> would be. The random source is seeded with a fixed
  string, and \<open>example_text\<close> is reproducible: any two calls return the same output.
\<close>

theorem example_text_reproducible:
  "example_data E self r = generate_data E self (Some ''None'') r
   \<and> map_option fst (example_text E self r1) = map_option fst (example_text E self r2)"
proof
  show "example_data E self r = generate_data E self (Some ''None'') r"
    by (simp add: example_data_def generate_data_def generate_data_loop_None)
  show "map_option fst (example_text E self r1) = map_option fst (example_text E self r2)"
  proof (cases rule: generate_data_cases [of E self None r1 r2])
    case none
    then show ?thesis by (simp add: example_text_def example_data_def)
  next
    case (some res r1' r2')
    then show ?thesis by (cases res) (simp_all add: example_text_def example_data_def)
  qed
qed

text \<open>
  The claim as stated fails: no environment, problem and pair of states of the random
  source make two calls of \<open>example_text\<close> differ.
\<close>

theorem example_text_unpredictable_counterexample:
  "\<not> (\<exists>(E :: ('r, 'v, 'a) environment) (self :: 'a problem) (r1 :: 'r) (r2 :: 'r).
        map_option fst (example_text E self r1) \<noteq> map_option fst (example_text E self r2))"
proof -
  have "map_option fst (example_text E self r1) = map_option fst (example_text E self r2)"
    for E :: "('r, 'v, 'a) environment" and self :: "'a problem" and r1 r2 :: 'r
  proof (cases rule: generate_data_cases [of E self None r1 r2])
    case none
    then show ?thesis by (simp add: example_text_def example_data_def)
  next
    case (some res r1' r2')
    then show ?thesis by (cases res) (simp_all add: example_text_def example_data_def)
  qed
  then show ?thesis by blast
qed

lemma generate_until_valid_after_rejections:
  "after_rejections gen k r = Some rk \<Longrightarrow>
     generate_until_valid gen r = generate_until_valid gen rk"
proof (induction k arbitrary: r)
  case 0
  then show ?case by simp
next
  case (Suc k)
  from Suc.prems obtain r1 where g: "gen r = (Inl GeneratedDataIncorrect, r1)"
    and rest: "after_rejections gen k r1 = Some rk"
    by (auto split: prod.splits sum.splits if_splits)
  have "generate_until_valid gen r = generate_until_valid gen r1"
    by (subst generate_until_valid.simps) (simp add: g)
  with Suc.IH [OF rest] show ?case by simp
qed

lemma generate_until_valid_accepts:
  assumes "accepts_after gen k r = Some (datum, r')"
  shows "generate_until_valid gen r = Some (Inr datum, r')"
proof -
  from assms obtain rk where rk: "after_rejections gen k r = Some rk"
    and g: "gen rk = (Inr datum, r')"
    by (auto simp: accepts_after_def split: option.splits prod.splits sum.splits)
  have "generate_until_valid gen rk = Some (Inr datum, r')"
    by (subst generate_until_valid.simps) (simp add: g)
  with generate_until_valid_after_rejections [OF rk] show ?thesis by simp
qed

lemma generate_until_valid_never_incorrect:
  "generate_until_valid gen r = Some res \<Longrightarrow> fst res \<noteq> Inl GeneratedDataIncorrect"
  by (rule generate_until_valid.raw_induct
        [where P = "\<lambda>gen r res. fst res \<noteq> Inl GeneratedDataIncorrect"])
     (auto split: prod.splits sum.splits if_splits)

lemma generate_data_loop_never_incorrect:
  "generate_data_loop E self seed js data r = Some res \<Longrightarrow> fst res \<noteq> Inl GeneratedDataIncorrect"
proof (induction js arbitrary: data r)
  case Nil
  then show ?case by auto
next
  case (Cons i js)
  then show ?case
    by (auto split: option.splits prod.splits sum.splits
             dest: generate_until_valid_never_incorrect)
qed

lemma generate_data_loop_accepts:
  assumes "\<And>i. i \<in> set js \<Longrightarrow>
     accepts_after (generate E self) (K i) (random_seed E (subproblem_seed i seed)) = Some (d i, r' i)"
  shows "generate_data_loop E self seed js data r =
           Some (Inr (data @ map d js), if js = [] then r else r' (last js))"
  using assms
proof (induction js arbitrary: data r)
  case Nil
  then show ?case by simp
next
  case (Cons i js)
  have "generate_until_valid (generate E self) (random_seed E (subproblem_seed i seed)) =
          Some (Inr (d i), r' i)"
    by (rule generate_until_valid_accepts [where k = "K i"]) (simp add: Cons.prems)
  moreover have "generate_data_loop E self seed js (data @ [d i]) (r' i) =
      Some (Inr ((data @ [d i]) @ map d js), if js = [] then r' i else r' (last js))"
    by (rule Cons.IH) (simp add: Cons.prems)
  ultimately show ?case by simp
qed

lemma generate_data_accepts:
  assumes "\<forall>i < number_of_subproblems self.
     accepts_after (generate E self) (K i) (random_seed E (subproblem_seed i seed)) = Some (d i, r' i)"
  shows "generate_data E self seed r =
           Some (Inr (map d [0..<number_of_subproblems self]),
                 if number_of_subproblems self = 0 then r else r' (number_of_subproblems self - 1))"
proof -
  have "generate_data_loop E self seed [0..<number_of_subproblems self] [] r =
          Some (Inr ([] @ map d [0..<number_of_subproblems self]),
                if [0..<number_of_subproblems self] = [] then r
                else r' (last [0..<number_of_subproblems self]))"
    by (rule generate_data_loop_accepts [where K = K]) (simp add: assms)
  then show ?thesis
    by (simp add: generate_data_def last_upt)
qed

text \<open>
  Claim C3. The random source is seeded when the loop enters a subproblem, with the
  index, a hyphen and the seed base written one after the other, and it is not seeded
  again within the subproblem: when the generator, started in the seeded state of
  subproblem \<open>i\<close>, rejects its first \<open>K i\<close> draws (each draw starting in the state the
  rejected one left) and then accepts, the data are the accepted ones, in the order of
  the subproblems, and the random source ends in the state the last accepted draw left.
  Whatever the generator does, \<^verbatim>\<open>GeneratedDataIncorrect\<close> is never what the
  generation returns to its caller. In the witness the state of the random source is the
  log of what was done to it: the last seed and the draws since.
\<close>

theorem generate_data_seeds_and_retries:
  "((\<forall>i < number_of_subproblems self.
       accepts_after (generate E self) (K i) (random_seed E (subproblem_seed i seed)) = Some (d i, r' i))
     \<longrightarrow> generate_data E self seed r =
           Some (Inr (map d [0..<number_of_subproblems self]),
                 if number_of_subproblems self = 0 then r else r' (number_of_subproblems self - 1)))
   \<and> (\<forall>res. generate_data E self seed r = Some res \<longrightarrow> fst res \<noteq> Inl GeneratedDataIncorrect)
   \<and> subproblem_seed j (Some base) = str_nat j @ ''-'' @ base"
proof (intro conjI impI allI)
  assume "\<forall>i < number_of_subproblems self.
       accepts_after (generate E self) (K i) (random_seed E (subproblem_seed i seed)) = Some (d i, r' i)"
  then show "generate_data E self seed r =
           Some (Inr (map d [0..<number_of_subproblems self]),
                 if number_of_subproblems self = 0 then r else r' (number_of_subproblems self - 1))"
    by (rule generate_data_accepts)
next
  fix res
  assume "generate_data E self seed r = Some res"
  then show "fst res \<noteq> Inl GeneratedDataIncorrect"
    unfolding generate_data_def by (rule generate_data_loop_never_incorrect)
next
  show "subproblem_seed j (Some base) = str_nat j @ ''-'' @ base"
    by (simp add: subproblem_seed_def)
qed

lemma logging_accepts:
  "accepts_after (generate logging_environment logged_problem) (Suc (Suc 0))
      (random_seed logging_environment s) = Some ([''x'' \<mapsto> s], [s, ''draw'', ''draw'', ''draw''])"
  by (simp add: accepts_after_def generate_def logging_environment_def logged_problem_def)

theorem generate_data_seeds_and_retries_witness:
  "generate_data logging_environment logged_problem (Some ''5-3'') [''earlier state''] =
     Some (Inr [[''x'' \<mapsto> ''0-5-3''], [''x'' \<mapsto> ''1-5-3'']],
           [''1-5-3'', ''draw'', ''draw'', ''draw''])"
proof -
  have n: "number_of_subproblems logged_problem = 2"
    by (simp add: logged_problem_def)
  have seeds: "subproblem_seed 0 (Some ''5-3'') = ''0-5-3''" "subproblem_seed (Suc 0) (Some ''5-3'') = ''1-5-3''"
    by (simp_all add: subproblem_seed_def str_nat.simps)
  have upt: "[0..<2] = [0, Suc 0]"
    by (simp add: upt_rec)
  from generate_data_seeds_and_retries
    [of logged_problem logging_environment "\<lambda>i. Suc (Suc 0)" "Some ''5-3''"
        "\<lambda>i. [''x'' \<mapsto> subproblem_seed i (Some ''5-3'')]"
        "\<lambda>i. [subproblem_seed i (Some ''5-3''), ''draw'', ''draw'', ''draw'']"
        "[''earlier state'']"]
  show ?thesis
    by (simp add: n logging_accepts seeds upt)
qed

lemma render_text_text_used: "render_text E self data = render (value_str E) (text_used E self) data"
  by (simp add: render_text_def text_used_def split: option.splits)

lemma render_loop_indexed:
  "(\<And>i. i \<in> set js \<Longrightarrow> render_datum str self (d i) = Inr (out i)) \<Longrightarrow>
     render_loop str self (map d js) acc = Inr (acc @ map out js)"
  by (induction js arbitrary: acc) auto

lemma render_loop_length:
  "render_loop str self data acc = Inr texts \<Longrightarrow> length texts = length acc + length data"
  by (induction data arbitrary: acc) (auto split: sum.splits)

lemma generate_data_loop_length:
  "generate_data_loop E self seed js data r = Some (Inr data', r') \<Longrightarrow>
     length data' = length data + length js"
  by (induction js arbitrary: data r) (auto split: option.splits prod.splits sum.splits)

lemma student_text_length:
  assumes "student_text E self student r = Some (Inr texts, r')"
  shows "length texts = number_of_subproblems self"
proof -
  let ?seed = "Some (str_id (id' self) @ ''-'' @ str_id (student_id student))"
  from assms obtain data where gen: "generate_data E self ?seed r = Some (Inr data, r')"
    and ren: "render_text E self data = Inr texts"
    by (auto simp: student_text_def split: option.splits prod.splits sum.splits)
  from gen have "length data = number_of_subproblems self"
    by (auto simp: generate_data_def dest: generate_data_loop_length)
  moreover from ren have "length texts = length data"
    by (auto simp: render_text_text_used render_def dest: render_loop_length)
  ultimately show ?thesis by simp
qed

text \<open>
  Claim C4. \<open>student_text\<close> returns one rendered pair per subproblem, in the order of
  the subproblems. When in every subproblem the generator rejects its first \<open>K i\<close>
  draws and accepts the next one with the datum \<open>d i\<close>, and the text of the problem
  renders this datum to \<open>out i\<close>, the call returns exactly the sequence
  \<open>out 0, ..., out (n - 1)\<close>: the rejected draws leave no entry and no gap. And
  whenever the call returns a sequence at all, its length is the number of subproblems.
  (A generator that rejects for ever makes the call never return, and a datum that the
  text cannot render makes it raise; both are outside the claim.)
\<close>

theorem student_text_one_pair_per_subproblem:
  "((\<forall>i < number_of_subproblems self.
        accepts_after (generate E self) (K i)
          (random_seed E
            (subproblem_seed i (Some (str_id (id' self) @ ''-'' @ str_id (student_id student))))) =
        Some (d i, r' i)
        \<and> render_datum (value_str E) (text_used E self) (d i) = Inr (out i))
     \<longrightarrow> map_option fst (student_text E self student r) =
           Some (Inr (map out [0..<number_of_subproblems self])))
   \<and> (\<forall>texts r''. student_text E self student r = Some (Inr texts, r'')
         \<longrightarrow> length texts = number_of_subproblems self)"
proof (intro conjI impI allI)
  let ?n = "number_of_subproblems self"
  let ?seed = "Some (str_id (id' self) @ ''-'' @ str_id (student_id student))"
  assume hyp: "\<forall>i < ?n.
        accepts_after (generate E self) (K i) (random_seed E (subproblem_seed i ?seed)) =
        Some (d i, r' i)
        \<and> render_datum (value_str E) (text_used E self) (d i) = Inr (out i)"
  then have "\<forall>i < ?n.
        accepts_after (generate E self) (K i) (random_seed E (subproblem_seed i ?seed)) =
        Some (d i, r' i)"
    by blast
  then have data: "generate_data E self ?seed r =
      Some (Inr (map d [0..<?n]), if ?n = 0 then r else r' (?n - 1))"
    by (rule generate_data_accepts)
  have "render_loop (value_str E) (text_used E self) (map d [0..<?n]) [] = Inr ([] @ map out [0..<?n])"
    by (rule render_loop_indexed) (simp add: hyp)
  then have "render_text E self (map d [0..<?n]) = Inr (map out [0..<?n])"
    by (simp add: render_text_text_used render_def)
  with data show "map_option fst (student_text E self student r) = Some (Inr (map out [0..<?n]))"
    by (simp add: student_text_def)
next
  fix texts r''
  assume "student_text E self student r = Some (Inr texts, r'')"
  then show "length texts = number_of_subproblems self"
    by (rule student_text_length)
qed

lemma logging_renders:
  "render_datum (value_str logging_environment) (text_used logging_environment logged_problem)
     [''x'' \<mapsto> s] = Inr \<lparr>rendered_instruction = ''Seed '' @ s, rendered_solution = s\<rparr>"
  by (simp add: render_datum_def text_used_def default_text_def default_instruction_def
        default_solution_def logging_environment_def logged_problem_def template_eval)

theorem student_text_one_pair_per_subproblem_witness:
  "map_option fst
     (student_text logging_environment logged_problem \<lparr>student_id = Some 3\<rparr> [''earlier state'']) =
     Some (Inr [\<lparr>rendered_instruction = ''Seed 0-5-3'', rendered_solution = ''0-5-3''\<rparr>,
                \<lparr>rendered_instruction = ''Seed 1-5-3'', rendered_solution = ''1-5-3''\<rparr>])"
proof -
  have n: "number_of_subproblems logged_problem = 2" and i: "id' logged_problem = Some 5"
    by (simp_all add: logged_problem_def)
  have seeds: "subproblem_seed 0 (Some ''5-3'') = ''0-5-3''"
      "subproblem_seed (Suc 0) (Some ''5-3'') = ''1-5-3''"
    by (simp_all add: subproblem_seed_def str_nat.simps)
  have ids: "str_id (Some 5) = ''5''" "str_id (Some 3) = ''3''"
    by (simp_all add: str_id_def str_int_def str_nat.simps)
  have upt: "[0..<2] = [0, Suc 0]"
    by (simp add: upt_rec)
  from student_text_one_pair_per_subproblem
    [of logged_problem logging_environment "\<lambda>i. Suc (Suc 0)" "\<lparr>student_id = Some 3\<rparr>"
        "\<lambda>i. [''x'' \<mapsto> subproblem_seed i (Some ''5-3'')]"
        "\<lambda>i. [subproblem_seed i (Some ''5-3''), ''draw'', ''draw'', ''draw'']"
        "\<lambda>i. \<lparr>rendered_instruction = ''Seed '' @ subproblem_seed i (Some ''5-3''),
               rendered_solution = subproblem_seed i (Some ''5-3'')\<rparr>"
        "[''earlier state'']"]
  show ?thesis
    by (simp add: n i ids logging_accepts logging_renders seeds upt)
qed

text \<open>
  Example mode at work, with the logging random source: whatever state the random source
  is in before the call, the two subproblems are seeded with \<^verbatim>\<open>0-None\<close> and
  \<^verbatim>\<open>1-None\<close>, and the text is the same.
\<close>

theorem example_text_reproducible_witness:
  "map_option fst (example_text logging_environment logged_problem [''earlier state'']) =
     Some (Inr [\<lparr>rendered_instruction = ''Seed 0-None'', rendered_solution = ''0-None''\<rparr>,
                \<lparr>rendered_instruction = ''Seed 1-None'', rendered_solution = ''1-None''\<rparr>])
   \<and> map_option fst (example_text logging_environment logged_problem [''another'', ''draw'']) =
     Some (Inr [\<lparr>rendered_instruction = ''Seed 0-None'', rendered_solution = ''0-None''\<rparr>,
                \<lparr>rendered_instruction = ''Seed 1-None'', rendered_solution = ''1-None''\<rparr>])"
proof -
  have n: "number_of_subproblems logged_problem = 2"
    by (simp add: logged_problem_def)
  have seeds: "subproblem_seed 0 (Some ''None'') = ''0-None''"
      "subproblem_seed (Suc 0) (Some ''None'') = ''1-None''"
    by (simp_all add: subproblem_seed_def str_nat.simps)
  have upt: "[0..<2] = [0, Suc 0]"
    by (simp add: upt_rec)
  have "generate_data logging_environment logged_problem (Some ''None'') r =
      Some (Inr (map (\<lambda>i. [''x'' \<mapsto> subproblem_seed i (Some ''None'')])
                 [0..<number_of_subproblems logged_problem]),
            if number_of_subproblems logged_problem = 0 then r
            else [subproblem_seed (number_of_subproblems logged_problem - 1) (Some ''None''),
                  ''draw'', ''draw'', ''draw''])" for r
    by (rule generate_data_accepts
          [where K = "\<lambda>i. Suc (Suc 0)"
             and d = "\<lambda>i. [''x'' \<mapsto> subproblem_seed i (Some ''None'')]"
             and r' = "\<lambda>i. [subproblem_seed i (Some ''None''), ''draw'', ''draw'', ''draw'']"])
       (simp add: logging_accepts)
  then have data: "example_data logging_environment logged_problem r =
      Some (Inr [[''x'' \<mapsto> ''0-None''], [''x'' \<mapsto> ''1-None'']],
            [''1-None'', ''draw'', ''draw'', ''draw''])" for r
    using example_text_reproducible [of logging_environment logged_problem r]
    by (simp add: n seeds upt)
  have texts: "render_text logging_environment logged_problem
        [[''x'' \<mapsto> ''0-None''], [''x'' \<mapsto> ''1-None'']] =
      Inr [\<lparr>rendered_instruction = ''Seed 0-None'', rendered_solution = ''0-None''\<rparr>,
           \<lparr>rendered_instruction = ''Seed 1-None'', rendered_solution = ''1-None''\<rparr>]"
    by (simp add: render_text_text_used render_def logging_renders)
  show ?thesis
    by (simp add: example_text_def data texts)
qed

section \<open>Properties of the problem entity\<close>

lemma render_without_template:
  "instruction t = None \<Longrightarrow> render str t data = (if data = [] then Inr [] else Inl TypeError)"
  by (cases data) (simp_all add: render_def render_datum_def substitute_def)

text \<open>
  Claim C5 (corrected). A problem renders with its own text when it has one, and
  otherwise with the default text of its class, made of the class attributes
  \<^verbatim>\<open>default_instruction\<close> and \<^verbatim>\<open>default_solution\<close>. When it has no text and its
  class has no default instruction, there is no error of its own for that: rendering a
  non-empty list of data raises \<^verbatim>\<open>TypeError\<close> at the first substitution, and
  rendering the empty list returns the empty list.
\<close>

theorem render_text_resolution:
  "(text' self = Some t \<longrightarrow> render_text E self data = render (value_str E) t data)
   \<and> (text' self = None \<longrightarrow>
        render_text E self data =
          render (value_str E)
            \<lparr>text_id = None, text_content_type = get_for_model (cls self),
             instruction = default_instruction E (cls self),
             solution = default_solution E (cls self)\<rparr> data)
   \<and> (text' self = None \<and> default_instruction E (cls self) = None \<longrightarrow>
        render_text E self data = (if data = [] then Inr [] else Inl TypeError))"
  by (auto simp: render_text_def default_text_def render_without_template)

theorem render_text_resolution_witness:
  "render_text logging_environment
      (logged_problem\<lparr>text' := Some \<lparr>text_id = Some 7,
         text_content_type = ContentType (Subclass ''kind''),
         instruction = Some ''Own @x'', solution = Some ''@x!''\<rparr>\<rparr>) [[''x'' \<mapsto> ''1'']] =
     Inr [\<lparr>rendered_instruction = ''Own 1'', rendered_solution = ''1!''\<rparr>]
   \<and> render_text logging_environment logged_problem [[''x'' \<mapsto> ''1'']] =
     Inr [\<lparr>rendered_instruction = ''Seed 1'', rendered_solution = ''1''\<rparr>]
   \<and> render_text bare_environment (bare_problem 1) [[''x'' \<mapsto> ''1'']] = Inl TypeError"
proof -
  let ?own = "\<lparr>text_id = Some 7, text_content_type = ContentType (Subclass ''kind''),
         instruction = Some ''Own @x'', solution = Some ''@x!''\<rparr>"
  from render_text_resolution
    [of "logged_problem\<lparr>text' := Some ?own\<rparr>" ?own logging_environment "[[''x'' \<mapsto> ''1'']]"]
  have a: "render_text logging_environment (logged_problem\<lparr>text' := Some ?own\<rparr>)
      [[''x'' \<mapsto> ''1'']] = Inr [\<lparr>rendered_instruction = ''Own 1'', rendered_solution = ''1!''\<rparr>]"
    by (simp add: render_def render_datum_def template_eval logging_environment_def)
  from render_text_resolution [of logged_problem _ logging_environment "[[''x'' \<mapsto> ''1'']]"]
  have b: "render_text logging_environment logged_problem [[''x'' \<mapsto> ''1'']] =
     Inr [\<lparr>rendered_instruction = ''Seed 1'', rendered_solution = ''1''\<rparr>]"
    by (simp add: render_def render_datum_def template_eval logging_environment_def
          logged_problem_def default_instruction_def default_solution_def)
  have "text' (bare_problem 1) = None"
    and "default_instruction bare_environment (cls (bare_problem 1)) = None"
    by (simp_all add: bare_problem_def bare_environment_def default_instruction_def)
  with render_text_resolution [of "bare_problem 1" _ bare_environment "[[''x'' \<mapsto> ''1'']]",
      THEN conjunct2, THEN conjunct2]
  have c: "render_text bare_environment (bare_problem 1) [[''x'' \<mapsto> ''1'']] = Inl TypeError"
    by simp
  from a b c show ?thesis by simp
qed

text \<open>
  The claim as stated fails: a problem without text, of a class without defaults and
  with no subproblem, renders without any failure.
\<close>

theorem no_template_counterexample:
  "text' (bare_problem 0) = None
   \<and> default_instruction bare_environment (cls (bare_problem 0)) = None
   \<and> default_solution bare_environment (cls (bare_problem 0)) = None
   \<and> student_text bare_environment (bare_problem 0) \<lparr>student_id = Some 3\<rparr> 0 = Some (Inr [], 0)
   \<and> render_text bare_environment (bare_problem 0) [] = Inr []"
  by (simp add: bare_problem_def bare_environment_def default_instruction_def
        default_solution_def student_text_def generate_data_def render_text_def default_text_def
        render_def)

lemma map_of_update: "map_of (AList.update k v al) = (map_of al)(k \<mapsto> v)"
  by (rule update_conv')

text \<open>
  Claim C6. \<open>clean\<close> raises, and raises \<^verbatim>\<open>ValidationError\<close>, exactly when the
  instance is of the class \<^verbatim>\<open>Problem\<close> itself or has a text whose content type is
  not the content type of the instance's class. The content type the caller left in the
  instance is never read: the outcome is the same for every such value, and unless the
  instance is of the class \<^verbatim>\<open>Problem\<close> the call leaves the content type of the class
  in it. \<open>clean\<close> does not touch the database (it takes none), so it fails before
  anything is stored; \<open>save\<close> sets the content type from the class again, in the
  instance and in the row it writes.
\<close>

theorem clean_validates_kind:
  "(fst (clean self) \<noteq> None \<longleftrightarrow>
      cls self = Problem
      \<or> (\<exists>t. text' self = Some t \<and> text_content_type t \<noteq> get_for_model (cls self)))
   \<and> (fst (clean self) = None \<or> (\<exists>msg. fst (clean self) = Some (ValidationError msg)))
   \<and> (cls self \<noteq> Problem \<longrightarrow>
        snd (clean self) = self\<lparr>content_type := get_for_model (cls self)\<rparr>)
   \<and> fst (clean (self\<lparr>content_type := ct\<rparr>)) = fst (clean self)
   \<and> (cls self \<noteq> Problem \<longrightarrow> clean (self\<lparr>content_type := ct\<rparr>) = clean self)
   \<and> content_type (fst (save self db)) = get_for_model (cls self)
   \<and> (\<exists>i row. id' (fst (save self db)) = Some i
        \<and> map_of (problem_table (snd (save self db))) i = Some row
        \<and> row_content_type row = get_for_model (cls self))"
  by (auto simp: clean_def Let_def save_def model_save_def map_of_update
           split: option.splits py_class.splits)


theorem clean_validates_kind_witness:
  "fst (clean (logged_problem\<lparr>content_type := ContentType (Subclass ''other''),
                               text' := Some (kind_text ''kind'')\<rparr>)) = None
   \<and> content_type (snd (clean (logged_problem\<lparr>content_type := ContentType (Subclass ''other''),
                               text' := Some (kind_text ''kind'')\<rparr>))) =
       ContentType (Subclass ''kind'')
   \<and> fst (clean (logged_problem\<lparr>text' := Some (kind_text ''other'')\<rparr>)) \<noteq> None
   \<and> fst (clean (logged_problem\<lparr>cls := Problem\<rparr>)) \<noteq> None"
  using
    clean_validates_kind [of "logged_problem\<lparr>content_type := ContentType (Subclass ''other''),
                               text' := Some (kind_text ''kind'')\<rparr>"]
    clean_validates_kind [of "logged_problem\<lparr>text' := Some (kind_text ''other'')\<rparr>"]
    clean_validates_kind [of "logged_problem\<lparr>cls := Problem\<rparr>"]
  by (simp add: logged_problem_def kind_text_def get_for_model_def)

lemma model_class_eq: "model_class ct = c \<longleftrightarrow> ct = ContentType c"
  by (cases ct) auto

lemma sequence_unused:
  "keys_below_sequence db \<Longrightarrow> problem_id_seq db \<notin> fst ` set (problem_table db)"
  by (auto simp: keys_below_sequence_def list_all_iff)

lemma set_alist_update: "set (AList.update k v al) \<subseteq> insert (k, v) (set al)"
  by (induction al) auto

lemma keys_below_sequence_insert:
  "keys_below_sequence db \<Longrightarrow>
     list_all (\<lambda>(i, row). i < problem_id_seq db + 1)
       (AList.update (problem_id_seq db) row (problem_table db))"
  using set_alist_update [of "problem_id_seq db" row "problem_table db"]
  by (fastforce simp: keys_below_sequence_def list_all_iff)

text \<open>
  Claim C7 (corrected). For a problem of the database as it is stored, read from the
  parent table or as an instance of its subclass, \<open>copy\<close> returns an instance with a
  new key: the key is the one the database chooses, and no row of the parent table had
  it. The copy is in the given document, of the source's kind and with the source's
  text and number of subproblems. It is stored under the new key, and every row under
  another key, those of the source among them, is as it was; no rendered text exists in
  a row or an instance, so none is copied. The object the method was called on is left
  as it was only when it is an instance of \<^verbatim>\<open>Problem\<close>: an instance of the subclass
  is itself given the new key and the new document, and it is the object returned.
\<close>

theorem copy_duplicates_stored_problem:
  assumes "stored_problem db self" and "keys_below_sequence db"
  shows "\<exists>q db' key.
      copy self doc db = (Inr q, (if cls self = Problem then self else q), db')
      \<and> id' q = Some key
      \<and> key \<notin> fst ` set (problem_table db)
      \<and> id' q \<noteq> id' self
      \<and> document q = doc
      \<and> content_type q = content_type self
      \<and> cls q = model_class (content_type self)
      \<and> text' q = text' self
      \<and> number_of_subproblems q = number_of_subproblems self
      \<and> stored_problem db' q
      \<and> stored_problem db' self
      \<and> keys_below_sequence db'
      \<and> (\<forall>i. i \<noteq> key \<longrightarrow> map_of (problem_table db') i = map_of (problem_table db) i)
      \<and> (\<forall>k i. i \<noteq> key \<longrightarrow>
            map_of (child_tables db') (k, i) = map_of (child_tables db) (k, i))"
proof -
  let ?new = "problem_id_seq db"
  from assms(1) obtain i row k ps where i: "id' self = Some i"
    and row: "map_of (problem_table db) i = Some row"
    and fields: "document self = row_document row" "content_type self = row_content_type row"
      "text' self = row_text row" "number_of_subproblems self = row_number_of_subproblems row"
    and k: "row_content_type row = ContentType (Subclass k)"
    and child: "map_of (child_tables db) (k, i) = Some ps"
    and inst: "cls self = Problem \<or> (cls self = Subclass k \<and> params self = ps)"
    by (auto simp: stored_problem_def model_class_eq split: option.splits py_class.splits)
  have fresh: "?new \<notin> fst ` set (problem_table db)"
    using assms(2) by (rule sequence_unused)
  from row have "i \<in> fst ` set (problem_table db)"
    by (force dest: map_of_SomeD)
  with fresh have new: "map_of (problem_table db) ?new = None" "i \<noteq> ?new"
    by (force simp: map_of_eq_None_iff)+
  note below = keys_below_sequence_insert [OF assms(2)]
  from inst show ?thesis
  proof
    assume c: "cls self = Problem"
    then show ?thesis
      using i row fields k child new fresh below
      by (simp add: copy_def downcast_def get_object_for_this_type_def save_def model_save_def
            Let_def update_conv' stored_problem_def get_for_model_def keys_below_sequence_def)
  next
    assume c: "cls self = Subclass k \<and> params self = ps"
    then show ?thesis
      using i row fields k child new fresh below
      by (simp add: copy_def downcast_def save_def model_save_def
            Let_def update_conv' stored_problem_def get_for_model_def keys_below_sequence_def)
  qed
qed

lemmas copy_eval =
  copy_def downcast_def get_object_for_this_type_def save_def model_save_def
  get_for_model_def example_database_def stored_instance_def

theorem copy_duplicates_stored_problem_witness:
  "stored_problem example_database (stored_instance Problem)
   \<and> keys_below_sequence example_database
   \<and> copy (stored_instance Problem) 20 example_database =
       (Inr \<lparr>id' = Some 3, cls = Subclass ''kind'', document = 20,
             content_type = ContentType (Subclass ''kind''),
             text' = Some (kind_text ''kind''), number_of_subproblems = 2, params = ()\<rparr>,
        stored_instance Problem,
        \<lparr>problem_table =
           [(1, \<lparr>row_document = 10, row_content_type = ContentType (Subclass ''kind''),
                 row_text = Some (kind_text ''kind''), row_number_of_subproblems = 2\<rparr>),
            (3, \<lparr>row_document = 20, row_content_type = ContentType (Subclass ''kind''),
                 row_text = Some (kind_text ''kind''), row_number_of_subproblems = 2\<rparr>)],
         child_tables = [((''kind'', 1), ()), ((''kind'', 3), ())],
         problem_id_seq = 4\<rparr>)"
proof -
  have stored: "stored_problem example_database (stored_instance Problem)"
    by (simp add: stored_problem_def example_database_def stored_instance_def)
  have below: "keys_below_sequence example_database"
    by (simp add: keys_below_sequence_def example_database_def)
  from copy_duplicates_stored_problem [OF stored below, of 20] stored below show ?thesis
    by (simp add: copy_eval)
qed

text \<open>
  The claim as stated fails. Called on an instance of its subclass, \<open>copy\<close> changes
  the object it was called on: afterwards it holds the key and the document of the
  copy. Called on an instance of \<^verbatim>\<open>Problem\<close> that was never saved, it raises
  \<^verbatim>\<open>DoesNotExist\<close> and produces no entity.
\<close>

theorem copy_source_unchanged_counterexample:
  "stored_problem example_database (stored_instance (Subclass ''kind''))
   \<and> fst (snd (copy (stored_instance (Subclass ''kind'')) 20 example_database)) \<noteq>
       stored_instance (Subclass ''kind'')
   \<and> id' (fst (snd (copy (stored_instance (Subclass ''kind'')) 20 example_database))) = Some 3
   \<and> document (fst (snd (copy (stored_instance (Subclass ''kind'')) 20 example_database))) = 20
   \<and> fst (copy ((stored_instance Problem)\<lparr>id' := None\<rparr>) 20 example_database) = Inl DoesNotExist"
  by (simp add: stored_problem_def copy_eval)

end
